theory Spec2Isabelle
  imports Complex_Main "HOL-Library.Multiset"
begin

section \<open>Strings and numbers as Python sees them\<close>

text \<open>
  A \<^typ>\<open>string\<close> is a list of code points below 256.

  Prices are Python floats. The floats that occur here are the results of \<open>float\<close> on an
  unsigned decimal text, and the constant 99.99: a finite value that is not negative, or
  \<open>inf\<close>. \<open>Fin v\<close> stands for the double nearest to the rational \<open>v\<close> (the rounding of
  \<open>v\<close> to that double is not represented), \<open>PInf\<close> for \<open>inf\<close>. The order is that of the
  floats, with \<open>inf\<close> above every finite value; \<open>min\<close> and \<open>max\<close> are taken in it.
\<close>

datatype pyfloat = Fin rat | PInf

instantiation pyfloat :: linorder
begin

definition less_eq_pyfloat :: "pyfloat \<Rightarrow> pyfloat \<Rightarrow> bool" where
  "less_eq_pyfloat a b =
     (case b of PInf \<Rightarrow> True | Fin y \<Rightarrow> (case a of PInf \<Rightarrow> False | Fin x \<Rightarrow> x \<le> y))"

definition less_pyfloat :: "pyfloat \<Rightarrow> pyfloat \<Rightarrow> bool" where
  "less_pyfloat a b = (a \<le> b \<and> \<not> b \<le> (a :: pyfloat))"

instance
proof
  fix x y z :: pyfloat
  show "(x < y) = (x \<le> y \<and> \<not> y \<le> x)" by (simp add: less_pyfloat_def)
  show "x \<le> x" by (simp add: less_eq_pyfloat_def split: pyfloat.splits)
  show "x \<le> y \<Longrightarrow> y \<le> z \<Longrightarrow> x \<le> z"
    by (auto simp: less_eq_pyfloat_def split: pyfloat.splits)
  show "x \<le> y \<Longrightarrow> y \<le> x \<Longrightarrow> x = y"
    by (auto simp: less_eq_pyfloat_def split: pyfloat.splits)
  show "x \<le> y \<or> y \<le> x"
    by (auto simp: less_eq_pyfloat_def split: pyfloat.splits)
qed

end

text \<open>
  A decimal text is read as \<open>inf\<close> when its value is at least \<open>2^1024 - 2^970\<close>, halfway
  between the largest double and \<open>2^1024\<close>; below that it is read as a finite double.
  The bound is written out in decimal (lemma \<open>float_overflow_power\<close> below).
\<close>

definition float_overflow :: rat where
  "float_overflow =
     179769313486231580793728971405303415079934132710037826936173778980444968292764750946649017977587207096330286416692887910946555547851940402630657488671505820681908902000708383676273854845817711531764475730270069855571366959622842914819860834936475292719074168444365510704342711559699508093042880177904174497792"

definition to_float :: "rat \<Rightarrow> pyfloat" where
  "to_float v = (if v < float_overflow then Fin v else PInf)"

text \<open>The exceptions the code can raise; all of them are subclasses of \<open>Exception\<close>.\<close>

datatype exn = ValueError | RequestException | HTTPError

text \<open>The class \<open>[0-9]\<close> of the regular expression: the ten ASCII digits.\<close>

definition is_digit :: "char \<Rightarrow> bool" where
  "is_digit c = (c \<in> set ''0123456789'')"

text \<open>The class \<open>[0-9,]\<close>.\<close>

definition is_digit_or_comma :: "char \<Rightarrow> bool" where
  "is_digit_or_comma c = (is_digit c \<or> c = CHR '','')"

text \<open>\<open>str.isspace\<close> on the code points below 256.\<close>

definition is_space :: "char \<Rightarrow> bool" where
  "is_space c = (of_char c \<in> {9::nat, 10, 11, 12, 13, 28, 29, 30, 31, 32, 133, 160})"

text \<open>\<open>s.strip()\<close>: leading and trailing whitespace removed.\<close>

definition strip :: "string \<Rightarrow> string" where
  "strip s = rev (dropWhile is_space (rev (dropWhile is_space s)))"

text \<open>\<open>s.replace(',', '')\<close>.\<close>

definition remove_commas :: "string \<Rightarrow> string" where
  "remove_commas s = filter (\<lambda>c. c \<noteq> CHR '','') s"

text \<open>The value of a string of decimal digits, most significant first.\<close>

definition digit_val :: "char \<Rightarrow> nat" where
  "digit_val c = of_char c - 48"

definition digits_val :: "string \<Rightarrow> nat" where
  "digits_val s = foldl (\<lambda>n c. 10 * n + digit_val c) 0 s"

text \<open>
  \<open>float(s)\<close> on the strings that reach it here: digits with at most one decimal point.
  Python accepts \<open>12\<close>, \<open>12.\<close>, \<open>.5\<close> and \<open>12.5\<close>, and raises \<open>ValueError\<close> on the empty
  string, on \<open>.\<close> and on a second point; a value too large for a double is read as \<open>inf\<close>
  without an error. Signs, exponents, blanks and the other forms \<open>float\<close> reads never occur
  in a captured group (lemma \<open>captured_alphabet\<close> below), so the model gives \<open>ValueError\<close>
  for them.
\<close>

definition py_float :: "string \<Rightarrow> exn + pyfloat" where
  "py_float s =
     (let ip = takeWhile is_digit s; r = dropWhile is_digit s in
      case r of
        [] \<Rightarrow> if ip = [] then Inl ValueError else Inr (to_float (of_nat (digits_val ip)))
      | c # fp \<Rightarrow>
          if c = CHR ''.'' \<and> list_all is_digit fp \<and> (ip \<noteq> [] \<or> fp \<noteq> [])
          then Inr (to_float (of_nat (digits_val ip) + of_nat (digits_val fp) / 10 ^ length fp))
          else Inl ValueError)"

section \<open>The price pattern\<close>

text \<open>
  \<^verbatim>\<open>re.search(r'[\$]?([0-9,]+\.?[0-9]*)', price_text)\<close>

  \<open>group1_at s\<close> matches the group \<open>([0-9,]+\.?[0-9]*)\<close> at the start of \<open>s\<close> and gives the
  captured text. Every quantifier is greedy and what follows \<open>[0-9,]+\<close> can match the empty
  string, so the longest run is the match and nothing is given back.
\<close>

definition group1_at :: "string \<Rightarrow> string option" where
  "group1_at s =
     (let a = takeWhile is_digit_or_comma s; r = dropWhile is_digit_or_comma s in
      if a = [] then None
      else (case r of
              c # r' \<Rightarrow>
                if c = CHR ''.'' then Some (a @ [c] @ takeWhile is_digit r')
                else Some (a @ takeWhile is_digit r)
            | [] \<Rightarrow> Some a))"

text \<open>
  The whole pattern at the start of \<open>s\<close>: \<open>[\$]?\<close> takes a dollar sign when there is one, and
  gives it back when the group does not match behind it.
\<close>

definition match_at :: "string \<Rightarrow> string option" where
  "match_at s =
     (case s of
        c # r \<Rightarrow>
          if c = CHR ''$'' then (case group1_at r of Some g \<Rightarrow> Some g | None \<Rightarrow> group1_at s)
          else group1_at s
      | [] \<Rightarrow> group1_at s)"

text \<open>\<open>re.search\<close> tries the start positions from left to right; the result is \<open>group(1)\<close>
  of the first match, \<open>None\<close> when no position matches.\<close>

fun re_search :: "string \<Rightarrow> string option" where
  "re_search [] = match_at []"
| "re_search (c # cs) = (case match_at (c # cs) of Some g \<Rightarrow> Some g | None \<Rightarrow> re_search cs)"

section \<open>The extractor\<close>

text \<open>
  A parsed document (\<open>BeautifulSoup(response.content, 'html.parser')\<close>) is represented by what
  \<open>soup.select\<close> gives for each selector: the texts (\<open>get_text()\<close>) of the matching elements
  in document order. A bs4 element is always truthy, so \<open>if price_element:\<close> and
  \<open>if title_element:\<close> test only that an element was found.
\<close>

type_synonym soup = "string \<Rightarrow> string list"

definition select_one :: "soup \<Rightarrow> string \<Rightarrow> string option" where
  "select_one doc sel = (case doc sel of [] \<Rightarrow> None | t # _ \<Rightarrow> Some t)"

definition price_selectors :: "string list" where
  \<open>price_selectors =
     [''span.a-price-whole'',
      ''span.a-price.a-text-price.a-size-medium.apexPriceToPay span.a-offscreen'',
      ''span#priceblock_dealprice'',
      ''span#priceblock_ourprice'',
      ''span.a-price.a-text-price.a-size-medium span.a-offscreen'',
      ''span.a-price-range'',
      ''.a-price .a-offscreen'',
      ''span[data-a-color="price"]'',
      ''.a-price-whole'']\<close>

definition title_selectors :: "string list" where
  "title_selectors =
     [''#productTitle'', ''h1.a-size-large'', ''h1#title'', ''.product-title'', ''h1 span'']"

text \<open>
  What one element of the inner loop does with its text: \<open>Inr (Some p)\<close> when \<open>price\<close> is
  assigned (\<open>break\<close>), \<open>Inr None\<close> when the loop goes on (no match, or \<open>ValueError\<close> caught
  by \<open>except ValueError: continue\<close>), \<open>Inl e\<close> for any other exception.
\<close>

definition price_of_text :: "string \<Rightarrow> exn + pyfloat option" where
  "price_of_text t =
     (case re_search (strip t) of
        None \<Rightarrow> Inr None
      | Some g \<Rightarrow>
          (case py_float (remove_commas g) of
             Inr p \<Rightarrow> Inr (Some p)
           | Inl e \<Rightarrow> if e = ValueError then Inr None else Inl e))"

text \<open>\<open>for price_element in price_elements\<close>.\<close>

fun scan_elements :: "string list \<Rightarrow> exn + pyfloat option" where
  "scan_elements [] = Inr None"
| "scan_elements (t # ts) =
     (case price_of_text t of
        Inl e \<Rightarrow> Inl e
      | Inr (Some p) \<Rightarrow> Inr (Some p)
      | Inr None \<Rightarrow> scan_elements ts)"

text \<open>\<open>for selector in price_selectors\<close>, left as soon as \<open>price is not None\<close>.\<close>

fun scan_selectors :: "soup \<Rightarrow> string list \<Rightarrow> exn + pyfloat option" where
  "scan_selectors doc [] = Inr None"
| "scan_selectors doc (sel # sels) =
     (case scan_elements (doc sel) of
        Inl e \<Rightarrow> Inl e
      | Inr (Some p) \<Rightarrow> Inr (Some p)
      | Inr None \<Rightarrow> scan_selectors doc sels)"

text \<open>\<open>for selector in title_selectors\<close>: the first selector with an element ends the loop.\<close>

fun scan_titles :: "soup \<Rightarrow> string list \<Rightarrow> string option" where
  "scan_titles doc [] = None"
| "scan_titles doc (sel # sels) =
     (case select_one doc sel of
        Some t \<Rightarrow> Some (strip t)
      | None \<Rightarrow> scan_titles doc sels)"

text \<open>\<^verbatim>\<open>title or f"Product {asin}"\<close>: \<open>None\<close> and the empty string are falsy.\<close>

definition title_or_label :: "string option \<Rightarrow> string \<Rightarrow> string" where
  "title_or_label title asin =
     (case title of
        None \<Rightarrow> ''Product '' @ asin
      | Some t \<Rightarrow> if t = [] then ''Product '' @ asin else t)"

text \<open>The dictionary the extractor returns.\<close>

record observation =
  obs_asin :: string
  obs_title :: string
  obs_price :: pyfloat
  obs_currency :: string
  obs_url :: string

text \<open>
  \<open>session.get(url, headers=headers, timeout=15)\<close> either raises or gives a response with a
  status code and a body; the body is held already parsed. The random delay and the random
  headers have no part in what the function computes from the response.
\<close>

datatype response = Response (status_code: nat) (content: soup)

type_synonym http = "string \<Rightarrow> exn + response"

text \<open>\<open>response.raise_for_status()\<close>: \<open>HTTPError\<close> for the 4xx and 5xx codes.\<close>

definition raise_for_status :: "response \<Rightarrow> exn + unit" where
  "raise_for_status r =
     (if 400 \<le> status_code r \<and> status_code r < 600 then Inl HTTPError else Inr ())"

definition urls_to_try :: "string \<Rightarrow> string list" where
  "urls_to_try asin =
     [''https://www.amazon.com/dp/'' @ asin, ''https://www.amazon.com/gp/product/'' @ asin]"

text \<open>
  The body of the \<open>try\<close> for one locator: \<open>Inl e\<close> when it raises \<open>e\<close>, \<open>Inr None\<close> when it
  ends without a \<open>return\<close> (503, or no price found), \<open>Inr (Some obs)\<close> when it returns.
\<close>

definition try_url :: "http \<Rightarrow> string \<Rightarrow> string \<Rightarrow> exn + observation option" where
  "try_url get asin url =
     (case get url of
        Inl e \<Rightarrow> Inl e
      | Inr resp \<Rightarrow>
          if status_code resp = 503 then Inr None
          else (case raise_for_status resp of
                  Inl e \<Rightarrow> Inl e
                | Inr _ \<Rightarrow>
                    (case scan_selectors (content resp) price_selectors of
                       Inl e \<Rightarrow> Inl e
                     | Inr price \<Rightarrow>
                         let title = scan_titles (content resp) title_selectors in
                         (case price of
                            Some p \<Rightarrow>
                              Inr (Some \<lparr>obs_asin = asin,
                                         obs_title = title_or_label title asin,
                                         obs_price = p,
                                         obs_currency = ''USD'',
                                         obs_url = url\<rparr>)
                          | None \<Rightarrow> Inr None))))"

text \<open>The mock response returned after the loop.\<close>

definition mock_data :: "string \<Rightarrow> observation" where
  "mock_data asin =
     \<lparr>obs_asin = asin,
      obs_title = ''Mock Product '' @ asin @ '' (Scraping blocked - need proxy)'',
      obs_price = Fin (9999 / 100),
      obs_currency = ''USD'',
      obs_url = ''https://www.amazon.com/dp/'' @ asin\<rparr>"

text \<open>
  \<open>for url in urls_to_try\<close> with its \<open>except Exception: continue\<close>. The result is a sum so
  that an exception leaving the function would be a value \<open>Inl e\<close>.
\<close>

fun scrape_urls :: "http \<Rightarrow> string \<Rightarrow> string list \<Rightarrow> exn + observation" where
  "scrape_urls get asin [] = Inr (mock_data asin)"
| "scrape_urls get asin (url # urls) =
     (case try_url get asin url of
        Inl e \<Rightarrow> scrape_urls get asin urls
      | Inr None \<Rightarrow> scrape_urls get asin urls
      | Inr (Some obs) \<Rightarrow> Inr obs)"

definition scrape_amazon_price :: "http \<Rightarrow> string \<Rightarrow> exn + observation" where
  "scrape_amazon_price get asin = scrape_urls get asin (urls_to_try asin)"

section \<open>The observation store\<close>

text \<open>
  The table \<open>price_history\<close>, its rows in insertion order. A timestamp is a whole number of
  seconds counted from Julian day 0, the start of the range SQLite's date functions
  cover; the texts \<open>YYYY-MM-DD HH:MM:SS\<close> that SQLite stores and compares are ordered as
  these numbers are.
\<close>

record row =
  row_id :: nat
  row_asin :: string
  row_title :: string
  row_price :: pyfloat
  row_currency :: string
  row_timestamp :: int
  row_url :: string

text \<open>\<open>id INTEGER PRIMARY KEY\<close>: one more than the largest id in the table.\<close>

definition next_id :: "row list \<Rightarrow> nat" where
  "next_id tbl = Suc (fold max (map row_id tbl) 0)"

text \<open>\<open>save_price_to_db\<close>: one \<open>INSERT\<close>; \<open>now\<close> is \<open>CURRENT_TIMESTAMP\<close>.\<close>

definition save_price_to_db :: "int \<Rightarrow> row list \<Rightarrow> observation \<Rightarrow> row list" where
  "save_price_to_db now tbl product_data =
     tbl @ [\<lparr>row_id = next_id tbl,
              row_asin = obs_asin product_data,
              row_title = obs_title product_data,
              row_price = obs_price product_data,
              row_currency = obs_currency product_data,
              row_timestamp = now,
              row_url = obs_url product_data\<rparr>]"

text \<open>
  \<^verbatim>\<open>datetime('now', '-{} days'.format(days))\<close>, \<open>None\<close> for SQL \<open>NULL\<close>. A negative
  \<open>days\<close> formats to \<open>--5 days\<close>, which is not a modifier, and a date before Julian day 0
  is out of SQLite's range: both give \<open>NULL\<close>.
\<close>

definition window_start :: "int \<Rightarrow> int \<Rightarrow> int option" where
  "window_start now days =
     (if days < 0 then None
      else if now - days * 86400 < 0 then None
      else Some (now - days * 86400))"

text \<open>
  The \<open>SELECT\<close>: the rows of \<open>asin\<close> with \<open>timestamp >= \<close> the window start (no row
  when that is \<open>NULL\<close>), \<open>ORDER BY timestamp DESC\<close>. SQL leaves the order of rows with equal
  timestamps open; SQLite's sorter keeps them in scan order, and so does the stable sort here.
\<close>

definition select_rows :: "int \<Rightarrow> row list \<Rightarrow> string \<Rightarrow> int \<Rightarrow> row list" where
  "select_rows now tbl asin days =
     (case window_start now days of
        None \<Rightarrow> []
      | Some start \<Rightarrow>
          sort_key (\<lambda>r. - row_timestamp r)
            (filter (\<lambda>r. row_asin r = asin \<and> start \<le> row_timestamp r) tbl))"

record entry =
  entry_price :: pyfloat
  entry_timestamp :: int

record history =
  hist_asin :: string
  hist_title :: string
  price_history :: "entry list"
  lowest_price :: pyfloat
  highest_price :: pyfloat

text \<open>
  \<open>get_price_history_from_db\<close>; \<open>min\<close> and \<open>max\<close> are taken of a list that is not empty
  here, as folds from its first element.
\<close>

definition get_price_history_from_db :: "int \<Rightarrow> row list \<Rightarrow> string \<Rightarrow> int \<Rightarrow> history option" where
  "get_price_history_from_db now tbl asin days =
     (case select_rows now tbl asin days of
        [] \<Rightarrow> None
      | r # rs \<Rightarrow>
          Some \<lparr>hist_asin = asin,
                hist_title = row_title r,
                price_history =
                  map (\<lambda>x. \<lparr>entry_price = row_price x, entry_timestamp = row_timestamp x\<rparr>) (r # rs),
                lowest_price = fold min (map row_price rs) (row_price r),
                highest_price = fold max (map row_price rs) (row_price r)\<rparr>)"

section \<open>The request handlers\<close>

text \<open>
  What a request finds outside the program: the answers of the remote site, the store's
  clock at the \<open>SELECT\<close> and at the \<open>INSERT\<close>, and \<open>datetime.now()\<close>.
\<close>

record env =
  site :: http
  select_now :: int
  insert_now :: int
  wall_clock :: int

text \<open>
  The state is the table together with a log of the calls the handlers make to the
  extractor and to the store, in the order they are made.
\<close>

datatype event = Scraped string | Saved row | Queried string int

record sys =
  rows :: "row list"
  calls :: "event list"

definition call_scrape :: "env \<Rightarrow> string \<Rightarrow> sys \<Rightarrow> (exn + observation) \<times> sys" where
  "call_scrape e asin s =
     (scrape_amazon_price (site e) asin, s\<lparr>calls := calls s @ [Scraped asin]\<rparr>)"

definition call_save :: "env \<Rightarrow> observation \<Rightarrow> sys \<Rightarrow> sys" where
  "call_save e product_data s =
     (let tbl = save_price_to_db (insert_now e) (rows s) product_data in
      s\<lparr>rows := tbl, calls := calls s @ [Saved (last tbl)]\<rparr>)"

definition call_query :: "env \<Rightarrow> string \<Rightarrow> int \<Rightarrow> sys \<Rightarrow> history option \<times> sys" where
  "call_query e asin days s =
     (get_price_history_from_db (select_now e) (rows s) asin days,
      s\<lparr>calls := calls s @ [Queried asin days]\<rparr>)"

record price_response =
  resp_asin :: string
  resp_title :: string
  current_price :: pyfloat
  resp_currency :: string
  resp_url :: string
  last_updated :: int

text \<open>
  \<open>GET /price/{asin}\<close>. A handler that returns gives status 200; an exception leaving it
  (\<open>Inl\<close>) is a server error.
\<close>

definition get_current_price :: "env \<Rightarrow> sys \<Rightarrow> string \<Rightarrow> exn + (price_response \<times> sys)" where
  "get_current_price e s asin =
     (case call_scrape e asin s of
        (Inl x, s1) \<Rightarrow> Inl x
      | (Inr product_data, s1) \<Rightarrow>
          let s2 = call_save e product_data s1 in
          Inr (\<lparr>resp_asin = obs_asin product_data,
                resp_title = obs_title product_data,
                current_price = obs_price product_data,
                resp_currency = obs_currency product_data,
                resp_url = obs_url product_data,
                last_updated = wall_clock e\<rparr>, s2))"

text \<open>\<open>GET /history/{asin}?days=N\<close>.\<close>

definition get_price_history :: "env \<Rightarrow> sys \<Rightarrow> string \<Rightarrow> int \<Rightarrow> exn + (history \<times> sys)" where
  "get_price_history e s asin days =
     (case call_query e asin days s of
        (None, s1) \<Rightarrow>
          (case call_scrape e asin s1 of
             (Inl x, s2) \<Rightarrow> Inl x
           | (Inr current_data, s2) \<Rightarrow>
               let s3 = call_save e current_data s2 in
               Inr (\<lparr>hist_asin = asin,
                     hist_title = obs_title current_data,
                     price_history =
                       [\<lparr>entry_price = obs_price current_data, entry_timestamp = wall_clock e\<rparr>],
                     lowest_price = obs_price current_data,
                     highest_price = obs_price current_data\<rparr>, s3))
      | (Some history_data, s1) \<Rightarrow> Inr (history_data, s1))"

text \<open>\<^verbatim>\<open>str(n)\<close> for an integer, as the f-string \<^verbatim>\<open>f"{min_discount}%"\<close> formats it.\<close>

fun nat_digits :: "nat \<Rightarrow> string" where
  "nat_digits n =
     (if n < 10 then [char_of (48 + n)]
      else nat_digits (n div 10) @ [char_of (48 + n mod 10)])"

definition py_str :: "int \<Rightarrow> string" where
  "py_str i = (if i < 0 then CHR ''-'' # nat_digits (nat (- i)) else nat_digits (nat i))"

text \<open>\<open>GET /deals/{category}\<close>: the dictionary returned, as its list of items.\<close>

definition find_deals :: "string \<Rightarrow> int \<Rightarrow> int \<Rightarrow> (string \<times> string) list" where
  "find_deals category min_discount limit =
     [(''message'', ''Deals endpoint coming soon!''),
      (''category'', category),
      (''min_discount'', py_str min_discount @ ''%''),
      (''note'', ''This requires scraping Amazon's deals pages - will implement next'')]"

text \<open>
  The routes of the application and the state each leaves behind (\<open>/\<close> and \<open>/health\<close>
  and \<open>/deals\<close> call neither the extractor nor the store).
\<close>

datatype request =
    Root
  | Price string
  | History string int
  | Deals string int int
  | Health

definition serve :: "env \<Rightarrow> sys \<Rightarrow> request \<Rightarrow> sys" where
  "serve e s req =
     (case req of
        Root \<Rightarrow> s
      | Price asin \<Rightarrow> (case get_current_price e s asin of Inl x \<Rightarrow> s | Inr (r, s') \<Rightarrow> s')
      | History asin days \<Rightarrow>
          (case get_price_history e s asin days of Inl x \<Rightarrow> s | Inr (r, s') \<Rightarrow> s')
      | Deals category min_discount limit \<Rightarrow> s
      | Health \<Rightarrow> s)"

text \<open>A run of the service: requests served one after the other, each in its own environment.\<close>

fun serve_all :: "sys \<Rightarrow> (env \<times> request) list \<Rightarrow> sys" where
  "serve_all s [] = s"
| "serve_all s ((e, req) # rest) = serve_all (serve e s req) rest"

section \<open>Notions used in the statements\<close>

text \<open>A fetch fails when the request raises or the response has a 4xx or 5xx status.\<close>

definition fetch_fails :: "exn + response \<Rightarrow> bool" where
  "fetch_fails r =
     (case r of Inl e \<Rightarrow> True | Inr resp \<Rightarrow> 400 \<le> status_code resp \<and> status_code resp < 600)"

text \<open>Appending observations one after the other, each at its own reading of the clock.\<close>

fun save_many :: "row list \<Rightarrow> (int \<times> observation) list \<Rightarrow> row list" where
  "save_many tbl [] = tbl"
| "save_many tbl ((now, product_data) # rest) =
     save_many (save_price_to_db now tbl product_data) rest"

text \<open>The row that \<open>save_price_to_db\<close> adds.\<close>

definition new_row :: "int \<Rightarrow> row list \<Rightarrow> observation \<Rightarrow> row" where
  "new_row now tbl product_data =
     \<lparr>row_id = next_id tbl,
      row_asin = obs_asin product_data,
      row_title = obs_title product_data,
      row_price = obs_price product_data,
      row_currency = obs_currency product_data,
      row_timestamp = now,
      row_url = obs_url product_data\<rparr>"

text \<open>An appended row carries the identifier, the clock reading and the price of its observation.\<close>

definition matches :: "row \<Rightarrow> int \<times> observation \<Rightarrow> bool" where
  "matches r x \<longleftrightarrow>
     row_asin r = obs_asin (snd x) \<and> row_timestamp r = fst x \<and> row_price r = obs_price (snd x)"

text \<open>
  Example pages. The first is the page
  \<^verbatim>\<open><span id="productTitle"> </span><h1 class="a-size-large">Widget</h1><span class="a-price-whole">10</span>\<close>:
  its first title selector finds an element whose text is blank.
\<close>

definition blank_title_page :: soup where
  "blank_title_page sel =
     (if sel = ''#productTitle'' then ['' '']
      else if sel = ''h1.a-size-large'' then [''Widget'']
      else if sel = ''span.a-price-whole'' \<or> sel = ''.a-price-whole'' then [''10'']
      else [])"

definition blank_title_site :: http where
  "blank_title_site url = Inr (Response 200 blank_title_page)"

text \<open>
  The second is the page
  \<^verbatim>\<open><span id="priceblock_ourprice">$10.00</span><span class="a-price"><span class="a-offscreen">$20.00</span></span>\<close>,
  on which the fourth and the seventh price selector both find a number.
\<close>

definition two_price_page :: soup where
  "two_price_page sel =
     (if sel = ''span#priceblock_ourprice'' then [''$10.00'']
      else if sel = ''.a-price .a-offscreen'' then [''$20.00'']
      else [])"

text \<open>
  A site that answers every request with status 300 and the page with two prices, and a
  site whose page shows a price of 310 digits, a one followed by 309 zeros.
\<close>

definition status_300_site :: http where
  "status_300_site url = Inr (Response 300 two_price_page)"

definition huge_price_page :: soup where
  "huge_price_page sel =
     (if sel = ''span#priceblock_ourprice'' then [CHR ''1'' # replicate 309 CHR ''0''] else [])"

definition huge_price_site :: http where
  "huge_price_site url = Inr (Response 200 huge_price_page)"

text \<open>A page that has a price, with \<open>Gadget\<close> as the text of its \<open>h1.a-size-large\<close>.\<close>

definition gadget_page :: soup where
  "gadget_page sel =
     (if sel = ''h1.a-size-large'' then ['' Gadget '', ''x'']
      else if sel = ''span#priceblock_ourprice'' then [''$7'']
      else [])"

text \<open>
  No text that a price selector finds on a page the site answers with is longer than 308
  characters.
\<close>

definition short_texts :: "http \<Rightarrow> string \<Rightarrow> bool" where
  "short_texts get asin =
     (\<forall>url\<in>set (urls_to_try asin). \<forall>resp. get url = Inr resp \<longrightarrow>
        (\<forall>sel\<in>set price_selectors. \<forall>t\<in>set (content resp sel). length t \<le> 308))"

text \<open>
  A table with one row, stored at noon of 2026-11-03 (Julian day 2461348), and that
  moment as the clock of a query.
\<close>

definition noon_2026_11_03 :: int where
  "noon_2026_11_03 = 2461348 * 86400"

definition one_row_table :: "row list" where
  "one_row_table =
     [\<lparr>row_id = 1, row_asin = ''B01'', row_title = ''Widget'', row_price = Fin 10,
       row_currency = ''USD'', row_timestamp = noon_2026_11_03,
       row_url = ''https://www.amazon.com/dp/B01''\<rparr>]"

section \<open>The extractor never fails outward\<close>

lemma py_float_raises: "py_float s = Inl e \<Longrightarrow> e = ValueError"
  by (auto simp: py_float_def Let_def split: list.splits if_splits)

lemma float_overflow_power: "float_overflow = 2 ^ 1024 - 2 ^ 970"
  by (simp add: float_overflow_def)

lemma to_float_nonneg: "0 \<le> v \<Longrightarrow> Fin 0 \<le> to_float v"
  by (simp add: to_float_def less_eq_pyfloat_def)

lemma py_float_nonneg: "py_float s = Inr p \<Longrightarrow> Fin 0 \<le> p"
  by (auto simp: py_float_def Let_def to_float_nonneg split: list.splits if_splits)

lemma price_of_text_cases:
  "price_of_text t = Inr None \<or> (\<exists>p. price_of_text t = Inr (Some p) \<and> Fin 0 \<le> p)"
  by (auto simp: price_of_text_def split: option.splits sum.splits
      dest: py_float_raises py_float_nonneg)

lemma scan_elements_cases:
  "scan_elements ts = Inr None \<or> (\<exists>p. scan_elements ts = Inr (Some p) \<and> Fin 0 \<le> p)"
proof (induction ts)
  case Nil
  show ?case by simp
next
  case (Cons t ts)
  from price_of_text_cases [of t] Cons show ?case by auto
qed

lemma scan_selectors_cases:
  "scan_selectors doc sels = Inr None \<or>
   (\<exists>p. scan_selectors doc sels = Inr (Some p) \<and> Fin 0 \<le> p)"
proof (induction sels)
  case Nil
  show ?case by simp
next
  case (Cons sel sels)
  from scan_elements_cases [of "doc sel"] Cons show ?case by auto
qed

lemma try_url_cases:
  "(\<exists>x. try_url get asin url = Inl x) \<or> try_url get asin url = Inr None \<or>
   (\<exists>obs. try_url get asin url = Inr (Some obs) \<and> Fin 0 \<le> obs_price obs \<and>
      obs_asin obs = asin \<and> obs_url obs = url)"
  using scan_selectors_cases [of "content (projr (get url))" price_selectors]
  by (auto simp: try_url_def Let_def split: sum.splits option.splits)

lemma scrape_urls_returns:
  "\<exists>obs. scrape_urls get asin urls = Inr obs \<and> Fin 0 \<le> obs_price obs \<and> obs_asin obs = asin"
proof (induction urls)
  case Nil
  show ?case by (simp add: mock_data_def less_eq_pyfloat_def)
next
  case (Cons url urls)
  from try_url_cases [of get asin url] Cons show ?case by auto
qed

lemma scrape_returns:
  "\<exists>obs. scrape_amazon_price get asin = Inr obs \<and> Fin 0 \<le> obs_price obs \<and> obs_asin obs = asin"
  unfolding scrape_amazon_price_def by (rule scrape_urls_returns)

section \<open>The placeholder\<close>

lemma fetch_fails_try_url:
  "fetch_fails (get url) \<Longrightarrow>
   try_url get asin url = Inr None \<or> (\<exists>x. try_url get asin url = Inl x)"
  by (auto simp: fetch_fails_def try_url_def raise_for_status_def split: sum.splits)

lemma no_price_mock:
  "(\<forall>url\<in>set urls. \<forall>obs. try_url get asin url \<noteq> Inr (Some obs)) \<Longrightarrow>
   scrape_urls get asin urls = Inr (mock_data asin)"
  by (induction urls) (auto split: sum.splits option.splits)

text \<open>
  Claim C2, amended. When for every candidate locator the request raises or is answered
  with a status from 400 to 599 (503 among them), the extractor returns the placeholder:
  the fixed price 99.99, the title \<open>Mock Product <asin> (Scraping blocked - need proxy)\<close>,
  and the first candidate locator as source. A response with any other status is parsed
  as a page.
\<close>

theorem all_fetches_fail_mock:
  assumes "\<forall>url\<in>set (urls_to_try asin). fetch_fails (get url)"
  shows "scrape_amazon_price get asin =
           Inr \<lparr>obs_asin = asin,
                obs_title = ''Mock Product '' @ asin @ '' (Scraping blocked - need proxy)'',
                obs_price = Fin (9999 / 100),
                obs_currency = ''USD'',
                obs_url = hd (urls_to_try asin)\<rparr>"
proof -
  have "\<forall>url\<in>set (urls_to_try asin). \<forall>obs. try_url get asin url \<noteq> Inr (Some obs)"
    using assms fetch_fails_try_url [of get _ asin] by fastforce
  then have "scrape_amazon_price get asin = Inr (mock_data asin)"
    unfolding scrape_amazon_price_def by (rule no_price_mock)
  then show ?thesis by (simp add: mock_data_def urls_to_try_def)
qed

text \<open>An instance: the first request raises, the second is answered 404 (with a body that
  holds a price, which is never read).\<close>

theorem all_fetches_fail_mock_witness:
  "scrape_amazon_price
     (\<lambda>url. if url = ''https://www.amazon.com/dp/B01'' then Inl RequestException
            else Inr (Response 404 (\<lambda>sel. [''$5'']))) ''B01'' =
   Inr \<lparr>obs_asin = ''B01'',
        obs_title = ''Mock Product B01 (Scraping blocked - need proxy)'',
        obs_price = Fin (9999 / 100),
        obs_currency = ''USD'',
        obs_url = ''https://www.amazon.com/dp/B01''\<rparr>"
  using all_fetches_fail_mock [of "''B01''"
      "\<lambda>url. if url = ''https://www.amazon.com/dp/B01'' then Inl RequestException
             else Inr (Response 404 (\<lambda>sel. [''$5'']))"]
  by (simp add: urls_to_try_def fetch_fails_def)

text \<open>
  Claim C2, as stated for every response that is not a success, fails when both locators
  are answered with status 300 and a page that shows a price: \<open>raise_for_status\<close> raises
  only from 400 on, the page is parsed, and the extractor returns its price 10.00 and not
  the placeholder.
\<close>

theorem status_300_counterexample:
  "status_300_site ''https://www.amazon.com/dp/B01'' = Inr (Response 300 two_price_page) \<and>
   status_300_site ''https://www.amazon.com/gp/product/B01'' = Inr (Response 300 two_price_page) \<and>
   scrape_amazon_price status_300_site ''B01'' =
     Inr \<lparr>obs_asin = ''B01'', obs_title = ''Product B01'', obs_price = Fin 10,
          obs_currency = ''USD'', obs_url = ''https://www.amazon.com/dp/B01''\<rparr>"
proof -
  have "scrape_amazon_price status_300_site ''B01'' =
     Inr \<lparr>obs_asin = ''B01'', obs_title = ''Product B01'', obs_price = Fin 10,
          obs_currency = ''USD'', obs_url = ''https://www.amazon.com/dp/B01''\<rparr>"
    by code_simp
  then show ?thesis by (simp add: status_300_site_def)
qed

section \<open>The deals placeholder\<close>

lemma digits_val_snoc: "digits_val (xs @ [c]) = 10 * digits_val xs + digit_val c"
  by (simp add: digits_val_def)

lemma digit_val_char_of: "d < 10 \<Longrightarrow> digit_val (char_of (48 + d)) = d"
  by (simp add: digit_val_def)

lemma digits_val_nat_digits: "digits_val (nat_digits n) = n"
proof (induction n rule: nat_digits.induct)
  case (1 n)
  show ?case
  proof (cases "n < 10")
    case True
    then show ?thesis
      by (subst nat_digits.simps) (simp add: digits_val_def digit_val_char_of)
  next
    case False
    with 1 have "digits_val (nat_digits (n div 10)) = n div 10" by simp
    with False show ?thesis
      by (subst nat_digits.simps) (simp add: digits_val_snoc digit_val_char_of)
  qed
qed

lemma nat_digits_inj: "nat_digits m = nat_digits n \<Longrightarrow> m = n"
  by (metis digits_val_nat_digits)

lemma nat_digits_nonempty: "nat_digits n \<noteq> []"
  by (subst nat_digits.simps) simp

lemma nat_digits_hd: "hd (nat_digits n) \<noteq> CHR ''-''"
proof (induction n rule: nat_digits.induct)
  case (1 n)
  show ?case
  proof (cases "n < 10")
    case True
    have "char_of (48 + n) \<noteq> CHR ''-''"
    proof
      assume "char_of (48 + n) = CHR ''-''"
      then have "(of_char (char_of (48 + n)) :: nat) = of_char CHR ''-''" by simp
      with True show False by simp
    qed
    with True show ?thesis by (subst nat_digits.simps) simp
  next
    case False
    from False 1 nat_digits_nonempty [of "n div 10"] show ?thesis
      by (subst nat_digits.simps) simp
  qed
qed

lemma py_str_inj: "py_str i = py_str j \<Longrightarrow> i = j"
proof -
  assume eq: "py_str i = py_str j"
  have neg: "hd (py_str k) = CHR ''-'' \<longleftrightarrow> k < 0" for k
    using nat_digits_hd [of "nat k"] by (simp add: py_str_def)
  from eq neg [of i] neg [of j] have same: "i < 0 \<longleftrightarrow> j < 0" by simp
  show "i = j"
  proof (cases "i < 0")
    case True
    with same eq have "nat_digits (nat (- i)) = nat_digits (nat (- j))"
      by (simp add: py_str_def)
    then have "nat (- i) = nat (- j)" by (rule nat_digits_inj)
    with True same show ?thesis by simp
  next
    case False
    with same eq have "nat_digits (nat i) = nat_digits (nat j)" by (simp add: py_str_def)
    then have "nat i = nat j" by (rule nat_digits_inj)
    with False same show ?thesis by simp
  qed
qed

text \<open>
  Claim C9, as stated, fails for \<open>limit\<close>: the response has no item for it and is the same
  for every \<open>limit\<close>.
\<close>

theorem find_deals_limit_counterexample:
  "find_deals ''books'' 20 10 = find_deals ''books'' 20 5 \<and>
   map_of (find_deals ''books'' 20 10) ''limit'' = None"
  by (simp add: find_deals_def)

text \<open>
  Claim C9, amended. The deals handler calls neither the extractor nor the store (it leaves
  the state, call log included, as it is) and returns the four items \<open>message\<close>,
  \<open>category\<close>, \<open>min_discount\<close>, \<open>note\<close>: \<open>category\<close> is the given category, \<open>min_discount\<close>
  is the given number followed by a percent sign, and two responses are equal exactly when
  category and minimum discount are; \<open>limit\<close> is accepted and not used.
\<close>

theorem find_deals_echo:
  "map_of (find_deals category min_discount limit) ''category'' = Some category \<and>
   map_of (find_deals category min_discount limit) ''min_discount'' =
     Some (py_str min_discount @ ''%'') \<and>
   map fst (find_deals category min_discount limit) =
     [''message'', ''category'', ''min_discount'', ''note''] \<and>
   (find_deals category min_discount limit = find_deals category' min_discount' limit') =
     (category = category' \<and> min_discount = min_discount') \<and>
   serve e s (Deals category min_discount limit) = s"
  using py_str_inj [of min_discount min_discount']
  by (auto simp: find_deals_def serve_def)

section \<open>The store is append-only\<close>

lemma save_appends: "save_price_to_db now tbl obs = tbl @ [new_row now tbl obs]"
  by (simp add: save_price_to_db_def new_row_def)

lemma serve_rows: "\<exists>new. rows (serve e s req) = rows s @ new \<and> length new \<le> 1"
  using scrape_returns [of "site e"]
  by (cases req)
    (auto simp: serve_def get_current_price_def get_price_history_def call_scrape_def
      call_save_def call_query_def Let_def save_appends
      split: sum.splits option.splits prod.splits)

lemma serve_all_rows: "\<exists>new. rows (serve_all s reqs) = rows s @ new"
proof (induction reqs arbitrary: s)
  case Nil
  show ?case by simp
next
  case (Cons a reqs)
  obtain e req where a: "a = (e, req)" by (cases a)
  from serve_rows [of e s req] obtain n1 where n1: "rows (serve e s req) = rows s @ n1"
    by blast
  from Cons [of "serve e s req"] obtain n2
    where "rows (serve_all (serve e s req) reqs) = rows (serve e s req) @ n2" by blast
  with n1 a show ?case by simp
qed

text \<open>
  Claim C8. An append adds one row at the end and leaves the table before it as it was; a
  query leaves the table as it was; every request, and every sequence of requests, leaves
  the rows that were in the table in place and unchanged, a single request adding at most
  one row behind them.
\<close>

theorem store_append_only:
  "save_price_to_db now tbl obs = tbl @ [new_row now tbl obs] \<and>
   rows (snd (call_query e asin days s)) = rows s \<and>
   (\<exists>new. rows (serve e s req) = rows s @ new \<and> length new \<le> 1) \<and>
   (\<exists>new. rows (serve_all s reqs) = rows s @ new)"
  using serve_rows [of e s req] serve_all_rows [of s reqs]
  by (simp add: save_appends call_query_def)

section \<open>Numeric extraction\<close>

lemma not_space_doc: "is_digit_or_comma c \<Longrightarrow> \<not> is_space c"
  by (auto simp: is_digit_or_comma_def is_digit_def is_space_def)

lemma doc_simps: "\<not> is_digit_or_comma CHR ''$''" "\<not> is_digit_or_comma CHR ''.''" "\<not> is_space CHR ''$''" "\<not> is_space CHR ''.''"
  "\<not> is_digit CHR '',''" "\<not> is_digit CHR ''.''"
  by (simp_all add: is_digit_or_comma_def is_digit_def is_space_def)

lemma digit_doc: "is_digit c \<Longrightarrow> is_digit_or_comma c"
  by (simp add: is_digit_or_comma_def)

lemma group1_at_None_iff: "group1_at s = None \<longleftrightarrow> s = [] \<or> \<not> is_digit_or_comma (hd s)"
  by (cases s) (auto simp: group1_at_def Let_def split: list.splits)

lemma group1_at_sub: "group1_at s = Some g \<Longrightarrow> set g \<subseteq> set s"
proof -
  assume a: "group1_at s = Some g"
  define a where "a = takeWhile is_digit_or_comma s"
  define r where "r = dropWhile is_digit_or_comma s"
  have s: "s = a @ r" by (simp add: a_def r_def)
  have tw: "set (takeWhile is_digit xs) \<subseteq> set xs" for xs by (auto dest: set_takeWhileD)
  from a have "g = a \<or> (\<exists>c r'. r = c # r' \<and> g = a @ [c] @ takeWhile is_digit r') \<or>
      g = a @ takeWhile is_digit r"
    unfolding group1_at_def Let_def a_def [symmetric] r_def [symmetric]
    by (cases r) (auto split: if_splits)
  then show ?thesis
  proof (elim disjE exE conjE)
    assume "g = a" with s show ?thesis by simp
  next
    fix c r' assume "r = c # r'" "g = a @ [c] @ takeWhile is_digit r'"
    with s tw [of r'] show ?thesis by auto
  next
    assume "g = a @ takeWhile is_digit r"
    with s tw [of r] show ?thesis by auto
  qed
qed

lemma match_at_sub: "match_at s = Some g \<Longrightarrow> set g \<subseteq> set s"
  by (auto simp: match_at_def split: list.splits if_splits option.splits dest!: group1_at_sub)

lemma re_search_sub: "re_search s = Some g \<Longrightarrow> set g \<subseteq> set s"
proof (induction s)
  case Nil
  then show ?case by (auto dest: match_at_sub)
next
  case (Cons c cs)
  show ?case
  proof (cases "match_at (c # cs)")
    case None
    with Cons show ?thesis by auto
  next
    case (Some h)
    with Cons.prems have "match_at (c # cs) = Some g" by simp
    then show ?thesis by (rule match_at_sub)
  qed
qed

lemma set_strip: "set (strip s) \<subseteq> set s"
proof -
  have "set (strip s) \<subseteq> set (dropWhile is_space s)"
    unfolding strip_def by (auto dest: set_dropWhileD)
  also have "\<dots> \<subseteq> set s" by (auto dest: set_dropWhileD)
  finally show ?thesis .
qed

lemma py_float_no_digit: "\<forall>c\<in>set x. \<not> is_digit c \<Longrightarrow> py_float x = Inl ValueError"
  by (cases x) (auto simp: py_float_def Let_def list_all_iff split: list.splits)

lemma no_digit_no_price: "\<forall>c\<in>set t. \<not> is_digit c \<Longrightarrow> price_of_text t = Inr None"
proof -
  assume nd: "\<forall>c\<in>set t. \<not> is_digit c"
  show ?thesis
  proof (cases "re_search (strip t)")
    case None
    then show ?thesis by (simp add: price_of_text_def)
  next
    case (Some g)
    from re_search_sub [OF Some] set_strip [of t] have "set (remove_commas g) \<subseteq> set t"
      by (auto simp: remove_commas_def)
    with nd have "py_float (remove_commas g) = Inl ValueError"
      by (intro py_float_no_digit) auto
    with Some show ?thesis by (simp add: price_of_text_def)
  qed
qed

lemma strip_id: "s \<noteq> [] \<Longrightarrow> \<not> is_space (hd s) \<Longrightarrow> \<not> is_space (last s) \<Longrightarrow> strip s = s"
proof -
  assume a: "s \<noteq> []" "\<not> is_space (hd s)" "\<not> is_space (last s)"
  then have 1: "dropWhile is_space s = s" by (cases s) auto
  from a have "dropWhile is_space (rev s) = rev s" by (cases "rev s") (auto simp: last_rev [symmetric] hd_rev)
  with 1 show ?thesis by (simp add: strip_def)
qed

lemma group1_at_run:
  assumes "ds \<noteq> []" "list_all is_digit_or_comma ds" "list_all is_digit fs"
  shows "group1_at ds = Some ds" "group1_at (ds @ CHR ''.'' # fs) = Some (ds @ CHR ''.'' # fs)"
proof -
  have t: "takeWhile is_digit_or_comma ds = ds" using assms by (simp add: list_all_iff)
  have d: "dropWhile is_digit_or_comma ds = []" using assms by (simp add: list_all_iff)
  have t2: "takeWhile is_digit_or_comma (ds @ CHR ''.'' # fs) = ds"
    using assms by (simp add: list_all_iff doc_simps)
  have d2: "dropWhile is_digit_or_comma (ds @ CHR ''.'' # fs) = CHR ''.'' # fs"
    using assms by (simp add: list_all_iff doc_simps)
  have t3: "takeWhile is_digit fs = fs" using assms by (simp add: list_all_iff)
  show "group1_at ds = Some ds" using assms(1) by (simp add: group1_at_def t d)
  show "group1_at (ds @ CHR ''.'' # fs) = Some (ds @ CHR ''.'' # fs)"
    using assms(1) by (simp add: group1_at_def t2 d2 t3)
qed

lemma re_search_run:
  assumes "ds \<noteq> []" "list_all is_digit_or_comma ds" "list_all is_digit fs"
  shows "re_search ds = Some ds" "re_search (ds @ CHR ''.'' # fs) = Some (ds @ CHR ''.'' # fs)"
    "re_search (CHR ''$'' # ds) = Some ds" "re_search (CHR ''$'' # ds @ CHR ''.'' # fs) = Some (ds @ CHR ''.'' # fs)"
proof -
  from assms obtain d ds' where ds: "ds = d # ds'" and d: "is_digit_or_comma d" by (cases ds) auto
  then have nd: "d \<noteq> CHR ''$''" using doc_simps by auto
  from group1_at_run [OF assms] ds nd
  show "re_search ds = Some ds" "re_search (ds @ CHR ''.'' # fs) = Some (ds @ CHR ''.'' # fs)" 
    "re_search (CHR ''$'' # ds) = Some ds" "re_search (CHR ''$'' # ds @ CHR ''.'' # fs) = Some (ds @ CHR ''.'' # fs)"
    by (simp_all add: match_at_def)
qed

lemma py_float_run:
  assumes "ds \<noteq> []" "list_all is_digit ds" "list_all is_digit fs"
  shows "py_float ds = Inr (to_float (of_nat (digits_val ds)))"
    "py_float (ds @ CHR ''.'' # fs) =
       Inr (to_float (of_nat (digits_val ds) + of_nat (digits_val fs) / 10 ^ length fs))"
proof -
  have t: "takeWhile is_digit ds = ds" using assms by (simp add: list_all_iff)
  have d: "dropWhile is_digit ds = []" using assms by (simp add: list_all_iff)
  have t2: "takeWhile is_digit (ds @ CHR ''.'' # fs) = ds"
    using assms by (simp add: list_all_iff doc_simps)
  have d2: "dropWhile is_digit (ds @ CHR ''.'' # fs) = CHR ''.'' # fs"
    using assms by (simp add: list_all_iff doc_simps)
  show "py_float ds = Inr (to_float (of_nat (digits_val ds)))"
    using assms(1) by (simp add: py_float_def t d)
  show "py_float (ds @ CHR ''.'' # fs) =
      Inr (to_float (of_nat (digits_val ds) + of_nat (digits_val fs) / 10 ^ length fs))"
    using assms by (simp add: py_float_def t2 d2)
qed

lemma remove_commas_digits: "list_all is_digit fs \<Longrightarrow> remove_commas fs = fs"
  unfolding remove_commas_def using doc_simps by (induction fs) auto

lemma remove_commas_run:
  assumes "list_all is_digit_or_comma ds" "\<exists>c\<in>set ds. is_digit c"
  shows "remove_commas ds \<noteq> []" "list_all is_digit (remove_commas ds)"
proof -
  from assms(2) obtain c where c: "c \<in> set ds" "is_digit c" by blast
  then have "c \<noteq> CHR '',''" using doc_simps(5) by blast
  with c have "c \<in> set (remove_commas ds)" by (simp add: remove_commas_def)
  then show "remove_commas ds \<noteq> []" by auto
  have "is_digit x" if "x \<in> set (remove_commas ds)" for x
  proof -
    from that have "x \<in> set ds" "x \<noteq> CHR '',''" by (simp_all add: remove_commas_def)
    with assms(1) show ?thesis by (auto simp: list_all_iff is_digit_or_comma_def)
  qed
  then show "list_all is_digit (remove_commas ds)" by (simp add: list_all_iff)
qed

lemma separators_ignored:
  assumes "list_all is_digit_or_comma ds" "\<exists>c\<in>set ds. is_digit c" "list_all is_digit fs"
  shows "price_of_text ds = Inr (Some (to_float (of_nat (digits_val (remove_commas ds)))))"
    "price_of_text (CHR ''$'' # ds) = Inr (Some (to_float (of_nat (digits_val (remove_commas ds)))))"
    "price_of_text (ds @ CHR ''.'' # fs) = Inr (Some (to_float (of_nat (digits_val (remove_commas ds)) + of_nat (digits_val fs) / 10 ^ length fs)))"
    "price_of_text (CHR ''$'' # ds @ CHR ''.'' # fs) = Inr (Some (to_float (of_nat (digits_val (remove_commas ds)) + of_nat (digits_val fs) / 10 ^ length fs)))"
proof -
  from assms have ne: "ds \<noteq> []" by auto
  from ne assms(1) have l: "\<not> is_space (last ds)" "\<not> is_space (hd ds)"
    by (simp_all add: list_all_iff not_space_doc)
  have lf: "\<not> is_space (last (CHR ''.'' # fs))"
  proof (cases fs rule: rev_cases)
    case Nil
    then show ?thesis by (simp add: doc_simps)
  next
    case (snoc ys y)
    with assms(3) have "is_digit y" by simp
    with snoc show ?thesis by (simp add: not_space_doc digit_doc)
  qed
  have s1: "strip ds = ds" using ne l(2) l(1) by (rule strip_id)
  have s2: "strip (CHR ''$'' # ds) = CHR ''$'' # ds"
    by (rule strip_id) (use ne l in \<open>simp_all add: doc_simps\<close>)
  have s3: "strip (ds @ CHR ''.'' # fs) = ds @ CHR ''.'' # fs"
    by (rule strip_id) (use ne l lf in \<open>simp_all\<close>)
  have s4: "strip (CHR ''$'' # ds @ CHR ''.'' # fs) = CHR ''$'' # ds @ CHR ''.'' # fs"
    by (rule strip_id) (use ne l lf in \<open>simp_all add: doc_simps\<close>)
  have rc: "remove_commas (ds @ CHR ''.'' # fs) = remove_commas ds @ CHR ''.'' # fs"
    using remove_commas_digits [OF assms(3)] by (simp add: remove_commas_def)
  note rs = re_search_run [OF ne assms(1) assms(3)]
  note pf = py_float_run [OF remove_commas_run [OF assms(1,2)] assms(3)]
  show "price_of_text ds = Inr (Some (to_float (of_nat (digits_val (remove_commas ds)))))"
    by (simp add: price_of_text_def s1 rs pf del: re_search.simps)
  show "price_of_text (CHR ''$'' # ds) = Inr (Some (to_float (of_nat (digits_val (remove_commas ds)))))"
    by (simp add: price_of_text_def s2 rs pf del: re_search.simps)
  show "price_of_text (ds @ CHR ''.'' # fs) = Inr (Some (to_float (of_nat (digits_val (remove_commas ds)) + of_nat (digits_val fs) / 10 ^ length fs)))"
    by (simp add: price_of_text_def s3 rs pf rc del: re_search.simps)
  show "price_of_text (CHR ''$'' # ds @ CHR ''.'' # fs) = Inr (Some (to_float (of_nat (digits_val (remove_commas ds)) + of_nat (digits_val fs) / 10 ^ length fs)))"
    by (simp add: price_of_text_def s4 rs pf rc del: re_search.simps)
qed

lemma group1_at_shape:
  assumes "group1_at s = Some g"
  shows "\<exists>a b. (g = a \<or> g = a @ CHR ''.'' # b) \<and> list_all is_digit_or_comma a \<and> list_all is_digit b"
proof -
  define a where "a = takeWhile is_digit_or_comma s"
  define r where "r = dropWhile is_digit_or_comma s"
  have a: "list_all is_digit_or_comma a"
    by (auto simp: a_def list_all_iff dest: set_takeWhileD)
  have tw: "list_all is_digit (takeWhile is_digit xs)" for xs
    by (auto simp: list_all_iff dest: set_takeWhileD)
  have r: "takeWhile is_digit r = []"
  proof (cases r)
    case Nil
    then show ?thesis by simp
  next
    case (Cons c r')
    then have "r \<noteq> []" by simp
    then have "\<not> is_digit_or_comma (hd r)" unfolding r_def by (rule hd_dropWhile)
    with Cons show ?thesis by (simp add: is_digit_or_comma_def)
  qed
  from assms have "g = a \<or> (\<exists>r'. g = a @ CHR ''.'' # takeWhile is_digit r') \<or>
      g = a @ takeWhile is_digit r"
    unfolding group1_at_def Let_def a_def [symmetric] r_def [symmetric]
    by (cases r) (auto split: if_splits)
  with r have "g = a \<or> (\<exists>r'. g = a @ CHR ''.'' # takeWhile is_digit r')" by auto
  with a tw show ?thesis by blast
qed

lemma re_search_group1: "re_search s = Some g \<Longrightarrow> \<exists>s'. group1_at s' = Some g"
proof (induction s)
  case Nil
  then show ?case by (auto simp: match_at_def)
next
  case (Cons c cs)
  show ?case
  proof (cases "match_at (c # cs)")
    case None
    with Cons show ?thesis by simp
  next
    case (Some h)
    with Cons.prems have "match_at (c # cs) = Some g" by simp
    then show ?thesis by (auto simp: match_at_def split: if_splits option.splits)
  qed
qed

lemma captured_alphabet:
  assumes "re_search s = Some g"
  shows "\<exists>a b. (remove_commas g = a \<or> remove_commas g = a @ CHR ''.'' # b) \<and>
           list_all is_digit a \<and> list_all is_digit b"
proof -
  from re_search_group1 [OF assms] obtain s' where "group1_at s' = Some g" ..
  from group1_at_shape [OF this] obtain a b
    where g: "g = a \<or> g = a @ CHR ''.'' # b" and a: "list_all is_digit_or_comma a"
      and b: "list_all is_digit b" by blast
  have ra: "list_all is_digit (remove_commas a)"
    using a by (auto simp: list_all_iff remove_commas_def is_digit_or_comma_def)
  have "remove_commas (a @ CHR ''.'' # b) = remove_commas a @ CHR ''.'' # b"
    using remove_commas_digits [OF b] by (simp add: remove_commas_def)
  with g have "remove_commas g = remove_commas a \<or> remove_commas g = remove_commas a @ CHR ''.'' # b"
    by auto
  with ra b show ?thesis by blast
qed

lemma price_of_text_no_abort: "price_of_text t \<noteq> Inl e"
  using price_of_text_cases [of t] by auto

text \<open>
  Claim C5. Numeric extraction from an element's text: \<open>$1,234.56\<close> gives 1234.56 and
  \<open>Price: 19.99 each\<close> gives 19.99; a text without a digit gives no price and the loop
  goes on to the next element; commas in the digit run are dropped before the number is
  read (as \<open>inf\<close> from the overflow bound on), and a dollar sign in front of the run (matched by the pattern but outside group 1)
  has no part in the value; a match whose group does not parse (\<open>ValueError\<close>) gives no
  price and the loop goes on to the next element, and past the last element to the next
  selector; no text makes the scan raise.
\<close>

theorem numeric_extraction:
  "price_of_text ''$1,234.56'' = Inr (Some (Fin (123456 / 100))) \<and>
   price_of_text ''Price: 19.99 each'' = Inr (Some (Fin (1999 / 100))) \<and>
   ((\<forall>c\<in>set t. \<not> is_digit c) \<longrightarrow>
      price_of_text t = Inr None \<and> scan_elements (t # ts) = scan_elements ts) \<and>
   (list_all is_digit_or_comma ds \<and> (\<exists>c\<in>set ds. is_digit c) \<and> list_all is_digit fs \<longrightarrow>
      price_of_text ds = Inr (Some (to_float (of_nat (digits_val (remove_commas ds))))) \<and>
      price_of_text (CHR ''$'' # ds) = price_of_text ds \<and>
      price_of_text (ds @ CHR ''.'' # fs) =
        Inr (Some (to_float (of_nat (digits_val (remove_commas ds)) +
                   of_nat (digits_val fs) / 10 ^ length fs))) \<and>
      price_of_text (CHR ''$'' # ds @ CHR ''.'' # fs) = price_of_text (ds @ CHR ''.'' # fs)) \<and>
   (re_search (strip u) = Some g \<and> py_float (remove_commas g) = Inl x \<longrightarrow>
      price_of_text u = Inr None \<and> scan_elements (u # us) = scan_elements us) \<and>
   (scan_elements (doc sel) = Inr None \<longrightarrow>
      scan_selectors doc (sel # sels) = scan_selectors doc sels) \<and>
   price_of_text v \<noteq> Inl e \<and> scan_elements vs \<noteq> Inl e"
proof (intro conjI impI)
  show "price_of_text ''$1,234.56'' = Inr (Some (Fin (123456 / 100)))" by code_simp
  show "price_of_text ''Price: 19.99 each'' = Inr (Some (Fin (1999 / 100)))" by code_simp
next
  assume "\<forall>c\<in>set t. \<not> is_digit c"
  then have n: "price_of_text t = Inr None" by (rule no_digit_no_price)
  then show "price_of_text t = Inr None" .
  from n show "scan_elements (t # ts) = scan_elements ts" by simp
next
  assume a: "list_all is_digit_or_comma ds \<and> (\<exists>c\<in>set ds. is_digit c) \<and> list_all is_digit fs"
  note si = separators_ignored [of ds fs]
  from a si show "price_of_text ds = Inr (Some (to_float (of_nat (digits_val (remove_commas ds)))))" by blast
  from a si show "price_of_text (CHR ''$'' # ds) = price_of_text ds" by presburger
  from a si show "price_of_text (ds @ CHR ''.'' # fs) =
        Inr (Some (to_float (of_nat (digits_val (remove_commas ds)) +
                   of_nat (digits_val fs) / 10 ^ length fs)))" by blast
  from a si show "price_of_text (CHR ''$'' # ds @ CHR ''.'' # fs) = price_of_text (ds @ CHR ''.'' # fs)"
    by presburger
next
  assume "re_search (strip u) = Some g \<and> py_float (remove_commas g) = Inl x"
  then have n: "price_of_text u = Inr None"
    by (auto simp: price_of_text_def dest: py_float_raises)
  then show "price_of_text u = Inr None" .
  from n show "scan_elements (u # us) = scan_elements us" by simp
next
  assume "scan_elements (doc sel) = Inr None"
  then show "scan_selectors doc (sel # sels) = scan_selectors doc sels" by simp
next
  show "price_of_text v \<noteq> Inl e" by (rule price_of_text_no_abort)
  show "scan_elements vs \<noteq> Inl e" using scan_elements_cases [of vs] by auto
qed

text \<open>Instances: \<open>N/A\<close> and \<open>,\<close> are passed over for the next element, \<open>12,345\<close> reads as 12345.\<close>

theorem numeric_extraction_witness:
  "scan_elements [''N/A'', ''$5''] = Inr (Some (Fin 5)) \<and>
   price_of_text ''12,345'' = Inr (Some (Fin 12345)) \<and>
   price_of_text ''$12,345'' = Inr (Some (Fin 12345)) \<and>
   price_of_text ''1,234.50'' = Inr (Some (Fin (12345 / 10))) \<and>
   scan_elements ['','', ''7''] = Inr (Some (Fin 7)) \<and>
   scan_selectors (\<lambda>sel. if sel = ''a'' then [''-''] else [''$3'']) [''a'', ''b''] =
     Inr (Some (Fin 3))"
proof -
  note T = numeric_extraction [where t = "''N/A''" and ts = "[''$5'']" and ds = "''12,345''"
      and fs = "[]" and u = "'',''" and us = "[''7'']" and g = "'',''" and x = ValueError
      and doc = "\<lambda>sel. if sel = ''a'' then [''-''] else [''$3'']" and sel = "''a''"
      and sels = "[''b'']"]
  note U = numeric_extraction [where ds = "''1,234''" and fs = "''50''"]
  have h1: "\<forall>c\<in>set ''N/A''. \<not> is_digit c" by (simp add: is_digit_def)
  have h2: "list_all is_digit_or_comma ''12,345'' \<and> (\<exists>c\<in>set ''12,345''. is_digit c) \<and>
      list_all is_digit []"
    by (simp add: is_digit_or_comma_def is_digit_def)
  have h3: "re_search (strip '','') = Some '','' \<and> py_float (remove_commas '','') = Inl ValueError"
    by code_simp
  have h4: "scan_elements ((\<lambda>sel. if sel = ''a'' then [''-''] else [''$3'']) ''a'') = Inr None"
    by code_simp
  have h5: "list_all is_digit_or_comma ''1,234'' \<and> (\<exists>c\<in>set ''1,234''. is_digit c) \<and>
      list_all is_digit ''50''"
    by (simp add: is_digit_or_comma_def is_digit_def)
  have v1: "to_float (rat_of_nat (digits_val (remove_commas ''12,345''))) = Fin 12345"
    by (simp add: remove_commas_def digits_val_def digit_val_def to_float_def float_overflow_def)
  have v2: "to_float (rat_of_nat (digits_val (remove_commas ''1,234'')) +
      rat_of_nat (digits_val ''50'') / 10 ^ length ''50'') = Fin (12345 / 10)"
    by (simp add: remove_commas_def digits_val_def digit_val_def to_float_def float_overflow_def)
  have e1: "scan_elements [''$5''] = Inr (Some (Fin 5))" by code_simp
  have e2: "scan_elements [''7''] = Inr (Some (Fin 7))" by code_simp
  have e3: "scan_selectors (\<lambda>sel. if sel = ''a'' then [''-''] else [''$3'']) [''b''] =
      Inr (Some (Fin 3))" by code_simp
  from T h1 e1 have c1: "scan_elements [''N/A'', ''$5''] = Inr (Some (Fin 5))" by metis
  from T h2 v1 have c2: "price_of_text ''12,345'' = Inr (Some (Fin 12345))" by simp
  from T h2 c2 have c3: "price_of_text ''$12,345'' = Inr (Some (Fin 12345))" by simp
  from U h5 v2 have c4: "price_of_text ''1,234.50'' = Inr (Some (Fin (12345 / 10)))" by simp
  from T h3 e2 have c5: "scan_elements ['','', ''7''] = Inr (Some (Fin 7))" by metis
  from T h4 e3 have c6:
    "scan_selectors (\<lambda>sel. if sel = ''a'' then [''-''] else [''$3'']) [''a'', ''b''] =
       Inr (Some (Fin 3))" by metis
  from c1 c2 c3 c4 c5 c6 show ?thesis by blast
qed

section \<open>Selector precedence\<close>

lemma scan_selectors_first:
  assumes "i < length sels" "scan_elements (doc (sels ! i)) = Inr (Some a)"
    "\<forall>k<i. scan_elements (doc (sels ! k)) = Inr None"
  shows "scan_selectors doc sels = Inr (Some a)"
  using assms
proof (induction sels arbitrary: i)
  case Nil
  then show ?case by simp
next
  case (Cons sel sels)
  show ?case
  proof (cases i)
    case 0
    with Cons.prems show ?thesis by simp
  next
    case (Suc j)
    with Cons.prems have h: "scan_elements (doc sel) = Inr None" by auto
    from Suc Cons.prems have "j < length sels" "scan_elements (doc (sels ! j)) = Inr (Some a)"
      "\<forall>k<j. scan_elements (doc (sels ! k)) = Inr None" by auto
    then have "scan_selectors doc sels = Inr (Some a)" by (rule Cons.IH)
    with h show ?thesis by simp
  qed
qed

lemma scan_selectors_least:
  assumes "i < length sels" "scan_elements (doc (sels ! i)) = Inr (Some a)"
  shows "\<exists>k\<le>i. \<exists>p. scan_elements (doc (sels ! k)) = Inr (Some p) \<and>
           scan_selectors doc sels = Inr (Some p) \<and>
           (\<forall>m<k. scan_elements (doc (sels ! m)) = Inr None)"
proof -
  define P where "P k \<longleftrightarrow> (\<exists>p. scan_elements (doc (sels ! k)) = Inr (Some p))" for k
  define k where "k = (LEAST k. P k)"
  have Pi: "P i" using assms by (simp add: P_def)
  then have Pk: "P k" unfolding k_def by (rule LeastI)
  have ki: "k \<le> i" unfolding k_def using Pi by (rule Least_le)
  have below: "scan_elements (doc (sels ! m)) = Inr None" if "m < k" for m
  proof -
    from that have "\<not> P m" unfolding k_def by (rule not_less_Least)
    with scan_elements_cases [of "doc (sels ! m)"] show ?thesis by (auto simp: P_def)
  qed
  from Pk obtain p where p: "scan_elements (doc (sels ! k)) = Inr (Some p)" by (auto simp: P_def)
  from ki assms(1) have "k < length sels" by simp
  from this p below have "scan_selectors doc sels = Inr (Some p)"
    by (intro scan_selectors_first) auto
  with p ki below show ?thesis by blast
qed

lemma scan_elements_first:
  "\<forall>x\<in>set xs. price_of_text x = Inr None \<Longrightarrow> price_of_text t = Inr (Some p) \<Longrightarrow>
   scan_elements (xs @ t # ys) = Inr (Some p)"
  by (induction xs) auto

lemma try_url_price:
  assumes "get url = Inr resp" "status_code resp < 400 \<or> 600 \<le> status_code resp"
    "scan_selectors (content resp) price_selectors = Inr (Some a)"
  shows "\<exists>obs. try_url get asin url = Inr (Some obs) \<and> obs_price obs = a \<and> obs_url obs = url"
  using assms by (auto simp: try_url_def raise_for_status_def Let_def)


text \<open>
  Claim C6. When two selectors of the price list both yield a parseable number on a
  document, the price returned is that of the first selector of the list that yields one,
  which stands at or before the earlier of the two; when no selector before the earlier
  one yields a number, it is the earlier one's price, also as the price of the observation
  returned for the locator. Within one selector, the first element that yields a number
  ends the scan.
\<close>

theorem selector_precedence:
  assumes "i < j" "j < length price_selectors"
    "scan_elements (doc (price_selectors ! i)) = Inr (Some a)"
    "scan_elements (doc (price_selectors ! j)) = Inr (Some b)"
  shows "(\<exists>k\<le>i. \<exists>p. scan_elements (doc (price_selectors ! k)) = Inr (Some p) \<and>
            scan_selectors doc price_selectors = Inr (Some p) \<and>
            (\<forall>m<k. scan_elements (doc (price_selectors ! m)) = Inr None)) \<and>
         ((\<forall>m<i. scan_elements (doc (price_selectors ! m)) = Inr None) \<longrightarrow>
            scan_selectors doc price_selectors = Inr (Some a)) \<and>
         ((\<forall>m<i. scan_elements (doc (price_selectors ! m)) = Inr None) \<and>
          get url = Inr (Response 200 doc) \<longrightarrow>
            (\<exists>obs. try_url get asin url = Inr (Some obs) \<and> obs_price obs = a \<and>
               obs_url obs = url)) \<and>
         ((\<forall>x\<in>set xs. price_of_text x = Inr None) \<and> price_of_text t = Inr (Some p') \<longrightarrow>
            scan_elements (xs @ t # ys) = Inr (Some p'))"
proof (intro conjI impI)
  from assms have i: "i < length price_selectors" by simp
  from i assms(3)
  show "\<exists>k\<le>i. \<exists>p. scan_elements (doc (price_selectors ! k)) = Inr (Some p) \<and>
            scan_selectors doc price_selectors = Inr (Some p) \<and>
            (\<forall>m<k. scan_elements (doc (price_selectors ! m)) = Inr None)"
    by (rule scan_selectors_least)
  {
    assume "\<forall>m<i. scan_elements (doc (price_selectors ! m)) = Inr None"
    with i assms(3) show "scan_selectors doc price_selectors = Inr (Some a)"
      by (rule scan_selectors_first)
  }
  {
    assume h: "(\<forall>m<i. scan_elements (doc (price_selectors ! m)) = Inr None) \<and>
      get url = Inr (Response 200 doc)"
    with i assms(3) have "scan_selectors doc price_selectors = Inr (Some a)"
      by (intro scan_selectors_first) auto
    with h show "\<exists>obs. try_url get asin url = Inr (Some obs) \<and> obs_price obs = a \<and>
               obs_url obs = url"
      by (intro try_url_price [where resp = "Response 200 doc"]) auto
  }
  {
    assume "(\<forall>x\<in>set xs. price_of_text x = Inr None) \<and> price_of_text t = Inr (Some p')"
    then show "scan_elements (xs @ t # ys) = Inr (Some p')"
      using scan_elements_first by blast
  }
qed

text \<open>On the page with two prices, the fourth selector (10.00) wins over the seventh (20.00).\<close>

theorem selector_precedence_witness:
  "scan_selectors two_price_page price_selectors = Inr (Some (Fin 10)) \<and>
   scan_elements (two_price_page (price_selectors ! 6)) = Inr (Some (Fin 20)) \<and>
   (\<exists>obs. try_url (\<lambda>url. Inr (Response 200 two_price_page)) ''B01'' ''u'' = Inr (Some obs) \<and>
      obs_price obs = Fin 10) \<and>
   scan_elements [''n/a'', ''$4'', ''$5''] = Inr (Some (Fin 4))"
proof -
  have h0: "(3::nat) < 6" "6 < length price_selectors" by (simp_all add: price_selectors_def)
  have h1: "scan_elements (two_price_page (price_selectors ! 3)) = Inr (Some (Fin 10))" by code_simp
  have h2: "scan_elements (two_price_page (price_selectors ! 6)) = Inr (Some (Fin 20))" by code_simp
  have h3: "\<forall>m<3. scan_elements (two_price_page (price_selectors ! m)) = Inr None"
  proof (intro allI impI)
    fix m :: nat assume "m < 3"
    then have "m = 0 \<or> m = 1 \<or> m = 2" by auto
    then show "scan_elements (two_price_page (price_selectors ! m)) = Inr None"
      by (auto simp: price_selectors_def two_price_page_def)
  qed
  have h4: "(\<forall>x\<in>set [''n/a'']. price_of_text x = Inr None) \<and> price_of_text ''$4'' = Inr (Some (Fin 4))"
    by code_simp
  note T = selector_precedence [OF h0 h1 h2, where get = "\<lambda>url. Inr (Response 200 two_price_page)"
      and url = "''u''" and asin = "''B01''" and xs = "[''n/a'']" and t = "''$4''" and p' = "Fin 4"
      and ys = "[''$5'']"]
  from T h3 have c1: "scan_selectors two_price_page price_selectors = Inr (Some (Fin 10))" by blast
  from T h3 have c3: "\<exists>obs. try_url (\<lambda>url. Inr (Response 200 two_price_page)) ''B01'' ''u'' = Inr (Some obs) \<and>
      obs_price obs = Fin 10" by blast
  from T h4 have c4: "scan_elements [''n/a'', ''$4'', ''$5''] = Inr (Some (Fin 4))" by simp
  from c1 h2 c3 c4 show ?thesis by blast
qed

section \<open>Title extraction\<close>

lemma scan_titles_first:
  assumes "i < length sels" "doc (sels ! i) = t # ts" "\<forall>k<i. doc (sels ! k) = []"
  shows "scan_titles doc sels = Some (strip t)"
  using assms
proof (induction sels arbitrary: i)
  case Nil
  then show ?case by simp
next
  case (Cons sel sels)
  show ?case
  proof (cases i)
    case 0
    with Cons.prems show ?thesis by (simp add: select_one_def)
  next
    case (Suc j)
    with Cons.prems have h: "doc sel = []" by auto
    from Suc Cons.prems have "j < length sels" "doc (sels ! j) = t # ts"
      "\<forall>k<j. doc (sels ! k) = []" by auto
    then have "scan_titles doc sels = Some (strip t)" by (rule Cons.IH)
    with h show ?thesis by (simp add: select_one_def)
  qed
qed

lemma scan_titles_none: "\<forall>sel\<in>set sels. doc sel = [] \<Longrightarrow> scan_titles doc sels = None"
  by (induction sels) (auto simp: select_one_def)

lemma try_url_title:
  assumes "get url = Inr (Response st doc)" "st \<noteq> 503" "\<not> (400 \<le> st \<and> st < 600)"
    "scan_selectors doc price_selectors = Inr (Some p)"
  shows "try_url get asin url =
           Inr (Some \<lparr>obs_asin = asin,
                      obs_title = title_or_label (scan_titles doc title_selectors) asin,
                      obs_price = p, obs_currency = ''USD'', obs_url = url\<rparr>)"
  using assms by (simp add: try_url_def raise_for_status_def)

text \<open>
  Claim C7, amended. The title selectors are tried in their fixed order and the first
  selector that finds an element ends the search: the title is the stripped text of that
  selector's first element, and the label \<open>Product <asin>\<close> takes its place when that
  text is empty, or when no selector finds an element. Later selectors are not consulted
  once one has found an element. This title is the title of the observation returned for
  a locator whose page has a price.
\<close>

theorem title_first_match:
  "(i < length title_selectors \<and> doc (title_selectors ! i) = t # ts \<and>
    (\<forall>k<i. doc (title_selectors ! k) = []) \<longrightarrow>
      scan_titles doc title_selectors = Some (strip t) \<and>
      title_or_label (scan_titles doc title_selectors) asin =
        (if strip t = [] then ''Product '' @ asin else strip t) \<and>
      (get url = Inr (Response st doc) \<and> st \<noteq> 503 \<and> \<not> (400 \<le> st \<and> st < 600) \<and>
       scan_selectors doc price_selectors = Inr (Some p) \<longrightarrow>
         try_url get asin url =
           Inr (Some \<lparr>obs_asin = asin,
                      obs_title = (if strip t = [] then ''Product '' @ asin else strip t),
                      obs_price = p, obs_currency = ''USD'', obs_url = url\<rparr>))) \<and>
   ((\<forall>sel\<in>set title_selectors. doc sel = []) \<longrightarrow>
      title_or_label (scan_titles doc title_selectors) asin = ''Product '' @ asin \<and>
      (get url = Inr (Response st doc) \<and> st \<noteq> 503 \<and> \<not> (400 \<le> st \<and> st < 600) \<and>
       scan_selectors doc price_selectors = Inr (Some p) \<longrightarrow>
         try_url get asin url =
           Inr (Some \<lparr>obs_asin = asin, obs_title = ''Product '' @ asin,
                      obs_price = p, obs_currency = ''USD'', obs_url = url\<rparr>)))"
proof (intro conjI impI)
  assume a: "i < length title_selectors \<and> doc (title_selectors ! i) = t # ts \<and>
    (\<forall>k<i. doc (title_selectors ! k) = [])"
  then have s: "scan_titles doc title_selectors = Some (strip t)"
    by (intro scan_titles_first [where ts = ts]) auto
  then show "scan_titles doc title_selectors = Some (strip t)" .
  from s show l: "title_or_label (scan_titles doc title_selectors) asin =
        (if strip t = [] then ''Product '' @ asin else strip t)"
    by (simp add: title_or_label_def)
  {
    assume "get url = Inr (Response st doc) \<and> st \<noteq> 503 \<and> \<not> (400 \<le> st \<and> st < 600) \<and>
       scan_selectors doc price_selectors = Inr (Some p)"
    then have "try_url get asin url =
           Inr (Some \<lparr>obs_asin = asin,
                      obs_title = title_or_label (scan_titles doc title_selectors) asin,
                      obs_price = p, obs_currency = ''USD'', obs_url = url\<rparr>)"
      by (intro try_url_title) auto
    with l show "try_url get asin url =
           Inr (Some \<lparr>obs_asin = asin,
                      obs_title = (if strip t = [] then ''Product '' @ asin else strip t),
                      obs_price = p, obs_currency = ''USD'', obs_url = url\<rparr>)"
      by simp
  }
next
  assume "\<forall>sel\<in>set title_selectors. doc sel = []"
  then have "scan_titles doc title_selectors = None" by (rule scan_titles_none)
  then show l: "title_or_label (scan_titles doc title_selectors) asin = ''Product '' @ asin"
    by (simp add: title_or_label_def)
  {
    assume "get url = Inr (Response st doc) \<and> st \<noteq> 503 \<and> \<not> (400 \<le> st \<and> st < 600) \<and>
       scan_selectors doc price_selectors = Inr (Some p)"
    then have "try_url get asin url =
           Inr (Some \<lparr>obs_asin = asin,
                      obs_title = title_or_label (scan_titles doc title_selectors) asin,
                      obs_price = p, obs_currency = ''USD'', obs_url = url\<rparr>)"
      by (intro try_url_title) auto
    with l show "try_url get asin url =
           Inr (Some \<lparr>obs_asin = asin, obs_title = ''Product '' @ asin,
                      obs_price = p, obs_currency = ''USD'', obs_url = url\<rparr>)"
      by simp
  }
qed

text \<open>
  Instances: a blank first match and a match of the second selector, each as the title of
  the observation returned, and a page without any title element.
\<close>

theorem title_first_match_witness:
  "scan_titles blank_title_page title_selectors = Some [] \<and>
   try_url blank_title_site ''B01'' ''u'' =
     Inr (Some \<lparr>obs_asin = ''B01'', obs_title = ''Product B01'', obs_price = Fin 10,
                obs_currency = ''USD'', obs_url = ''u''\<rparr>) \<and>
   try_url (\<lambda>url. Inr (Response 200 gadget_page)) ''B01'' ''u'' =
     Inr (Some \<lparr>obs_asin = ''B01'', obs_title = ''Gadget'', obs_price = Fin 7,
                obs_currency = ''USD'', obs_url = ''u''\<rparr>) \<and>
   try_url (\<lambda>url. Inr (Response 200 two_price_page)) ''B01'' ''u'' =
     Inr (Some \<lparr>obs_asin = ''B01'', obs_title = ''Product B01'', obs_price = Fin 10,
                obs_currency = ''USD'', obs_url = ''u''\<rparr>)"
proof -
  note T = title_first_match [where i = 0 and doc = blank_title_page and t = "'' ''"
      and ts = "[]" and asin = "''B01''" and get = blank_title_site and url = "''u''"
      and st = 200 and p = "Fin 10"]
  note U = title_first_match [where i = 0 and t = "[]" and ts = "[]" and doc = two_price_page
      and asin = "''B01''"
      and get = "\<lambda>url. Inr (Response 200 two_price_page)" and url = "''u''"
      and st = 200 and p = "Fin 10"]
  note V = title_first_match [where i = 1 and doc = gadget_page
      and t = "'' Gadget ''" and ts = "[''x'']" and asin = "''B01''"
      and get = "\<lambda>url. Inr (Response 200 gadget_page)" and url = "''u''"
      and st = 200 and p = "Fin 7"]
  have h1: "0 < length title_selectors \<and> blank_title_page (title_selectors ! 0) = ['' ''] \<and>
      (\<forall>k<0. blank_title_page (title_selectors ! k) = [])"
    by (simp add: title_selectors_def blank_title_page_def)
  have g1p: "scan_selectors blank_title_page price_selectors = Inr (Some (Fin 10))" by code_simp
  have g1: "blank_title_site ''u'' = Inr (Response 200 blank_title_page) \<and> (200::nat) \<noteq> 503 \<and>
      \<not> (400 \<le> (200::nat) \<and> (200::nat) < 600) \<and>
      scan_selectors blank_title_page price_selectors = Inr (Some (Fin 10))"
    using g1p by (simp add: blank_title_site_def)
  have h2: "\<forall>sel\<in>set title_selectors. two_price_page sel = []"
    by (simp add: title_selectors_def two_price_page_def)
  have g2p: "scan_selectors two_price_page price_selectors = Inr (Some (Fin 10))" by code_simp
  have g2: "(\<lambda>url. Inr (Response 200 two_price_page)) ''u'' = Inr (Response 200 two_price_page) \<and> (200::nat) \<noteq> 503 \<and>
      \<not> (400 \<le> (200::nat) \<and> (200::nat) < 600) \<and>
      scan_selectors two_price_page price_selectors = Inr (Some (Fin 10))"
    using g2p by (simp)
  have h3: "1 < length title_selectors \<and>
      gadget_page (title_selectors ! 1) = '' Gadget '' # [''x''] \<and>
      (\<forall>k<1. gadget_page (title_selectors ! k) = [])"
    by (simp add: title_selectors_def gadget_page_def)
  have g3p: "scan_selectors gadget_page price_selectors = Inr (Some (Fin 7))" by code_simp
  have g3: "(\<lambda>url. Inr (Response 200 gadget_page)) ''u'' = Inr (Response 200 gadget_page) \<and> (200::nat) \<noteq> 503 \<and>
      \<not> (400 \<le> (200::nat) \<and> (200::nat) < 600) \<and>
      scan_selectors gadget_page price_selectors = Inr (Some (Fin 7))"
    using g3p by (simp)
  have s1: "strip '' '' = []" by code_simp
  have s2: "strip '' Gadget '' = ''Gadget''" by code_simp
  from T h1 have a1: "scan_titles blank_title_page title_selectors = Some (strip '' '')"
    by blast
  from T h1 g1 have a2: "try_url blank_title_site ''B01'' ''u'' =
      Inr (Some \<lparr>obs_asin = ''B01'',
                 obs_title = (if strip '' '' = [] then ''Product '' @ ''B01'' else strip '' ''),
                 obs_price = Fin 10, obs_currency = ''USD'', obs_url = ''u''\<rparr>)"
    by blast
  from U h2 g2 have a3: "try_url (\<lambda>url. Inr (Response 200 two_price_page)) ''B01'' ''u'' =
      Inr (Some \<lparr>obs_asin = ''B01'', obs_title = ''Product '' @ ''B01'',
                 obs_price = Fin 10, obs_currency = ''USD'', obs_url = ''u''\<rparr>)"
    by blast
  from V h3 g3 have a4: "try_url (\<lambda>url. Inr (Response 200 gadget_page)) ''B01'' ''u'' =
      Inr (Some \<lparr>obs_asin = ''B01'',
                 obs_title = (if strip '' Gadget '' = [] then ''Product '' @ ''B01''
                              else strip '' Gadget ''),
                 obs_price = Fin 7, obs_currency = ''USD'', obs_url = ''u''\<rparr>)"
    by blast
  from a1 s1 have c1: "scan_titles blank_title_page title_selectors = Some []" by simp
  from a2 s1 have c2: "try_url blank_title_site ''B01'' ''u'' =
     Inr (Some \<lparr>obs_asin = ''B01'', obs_title = ''Product B01'', obs_price = Fin 10,
                obs_currency = ''USD'', obs_url = ''u''\<rparr>)" by simp
  from a4 s2 have c3: "try_url (\<lambda>url. Inr (Response 200 gadget_page)) ''B01'' ''u'' =
     Inr (Some \<lparr>obs_asin = ''B01'', obs_title = ''Gadget'', obs_price = Fin 7,
                obs_currency = ''USD'', obs_url = ''u''\<rparr>)" by simp
  from a3 have c4: "try_url (\<lambda>url. Inr (Response 200 two_price_page)) ''B01'' ''u'' =
     Inr (Some \<lparr>obs_asin = ''B01'', obs_title = ''Product B01'', obs_price = Fin 10,
                obs_currency = ''USD'', obs_url = ''u''\<rparr>)" by simp
  from c1 c2 c3 c4 show ?thesis by blast
qed

text \<open>
  Claim C7, as stated, fails on the page whose \<open>#productTitle\<close> element is blank while
  \<open>h1.a-size-large\<close> holds \<open>Widget\<close>: the search ends at the blank element and the title
  returned is the label, not \<open>Widget\<close>.
\<close>

theorem title_blank_counterexample:
  "select_one blank_title_page ''#productTitle'' = Some '' '' \<and>
   strip '' '' = [] \<and>
   select_one blank_title_page ''h1.a-size-large'' = Some ''Widget'' \<and>
   scan_titles blank_title_page title_selectors = Some [] \<and>
   scrape_amazon_price blank_title_site ''B01'' =
     Inr \<lparr>obs_asin = ''B01'', obs_title = ''Product B01'', obs_price = Fin 10,
          obs_currency = ''USD'', obs_url = ''https://www.amazon.com/dp/B01''\<rparr>"
  by code_simp

section \<open>The store query\<close>

lemma window_start_Some: "0 \<le> days \<Longrightarrow> days * 86400 \<le> now \<Longrightarrow> window_start now days = Some (now - days * 86400)"
  by (simp add: window_start_def)

lemma select_rows_valid:
  assumes "0 \<le> days" "days * 86400 \<le> now"
  shows "select_rows now tbl asin days =
    sort_key (\<lambda>r. - row_timestamp r) (filter (\<lambda>r. row_asin r = asin \<and> now - days * 86400 \<le> row_timestamp r) tbl)"
  using assms by (simp add: select_rows_def window_start_Some)

lemma fold_min_Min: "fold min xs (x::pyfloat) = Min (set (x # xs))"
  by (metis Min.set_eq_fold)

lemma fold_max_Max: "fold max xs (x::pyfloat) = Max (set (x # xs))"
  by (metis Max.set_eq_fold)

lemma hist_from_rows:
  "get_price_history_from_db now tbl asin days =
     (case select_rows now tbl asin days of [] \<Rightarrow> None
      | r # rs \<Rightarrow> Some \<lparr>hist_asin = asin, hist_title = row_title r,
           price_history = map (\<lambda>x. \<lparr>entry_price = row_price x, entry_timestamp = row_timestamp x\<rparr>) (r # rs),
           lowest_price = Min (set (map row_price (r # rs))),
           highest_price = Max (set (map row_price (r # rs)))\<rparr>)"
  by (simp add: get_price_history_from_db_def fold_min_Min fold_max_Max split: list.splits)


lemma sort_key_Nil_iff: "sort_key f xs = [] \<longleftrightarrow> xs = []"
  by (metis length_sort length_0_conv)

lemma newest_first:
  "sorted_wrt (\<lambda>a b. row_timestamp b \<le> row_timestamp a) (sort_key (\<lambda>r. - row_timestamp r) xs)"
proof -
  have "sorted (map (\<lambda>r. - row_timestamp r) (sort_key (\<lambda>r. - row_timestamp r) xs))"
    by simp
  then show ?thesis by (simp add: sorted_map)
qed

lemma save_many_append: "\<exists>new. save_many tbl xs = tbl @ new \<and> list_all2 matches new xs"
proof (induction xs arbitrary: tbl)
  case Nil
  show ?case by simp
next
  case (Cons x xs)
  obtain now obs where x: "x = (now, obs)" by (cases x)
  from Cons [of "save_price_to_db now tbl obs"] obtain new where
    n: "save_many (save_price_to_db now tbl obs) xs = save_price_to_db now tbl obs @ new"
      "list_all2 matches new xs" by blast
  from n(1) have "save_many tbl (x # xs) = tbl @ new_row now tbl obs # new"
    by (simp add: x save_appends)
  moreover have "matches (new_row now tbl obs) x"
    by (simp add: new_row_def matches_def x)
  ultimately show ?case
    using n(2) by (intro exI [of _ "new_row now tbl obs # new"]) simp
qed

lemma matches_all:
  "list_all2 matches new xs \<Longrightarrow> \<forall>x\<in>set xs. obs_asin (snd x) = asin \<and> lo \<le> fst x \<Longrightarrow>
   (\<forall>r\<in>set new. row_asin r = asin \<and> lo \<le> row_timestamp r) \<and>
   map row_price new = map (obs_price \<circ> snd) xs \<and> length new = length xs"
  by (induction new xs rule: list_all2_induct) (auto simp: matches_def)

text \<open>
  Claim C3, amended. For every identifier and every window of \<open>days \<ge> 0\<close> days that starts
  no earlier than Julian day 0 (the first date the store's date arithmetic can represent):
  the query returns exactly the stored observations of the identifier whose timestamp is
  not before the start of the window (each as often as it is stored, none of another
  identifier, none older), newest first; it returns the no-data sentinel exactly when
  there is no such observation; otherwise the history lists the rows in that order, lowest
  and highest are the minimum and the maximum of the returned prices, and the title is that
  of the first row; and when the table holds nothing for the identifier, appending N
  observations for it inside the window and then querying gives exactly N rows, with the
  N appended prices.
\<close>

theorem store_query:
  assumes "0 \<le> days" "days * 86400 \<le> now"
  shows "mset (select_rows now tbl asin days) =
           filter_mset (\<lambda>r. row_asin r = asin \<and> now - days * 86400 \<le> row_timestamp r) (mset tbl) \<and>
         sorted_wrt (\<lambda>a b. row_timestamp b \<le> row_timestamp a) (select_rows now tbl asin days) \<and>
         (get_price_history_from_db now tbl asin days = None \<longleftrightarrow>
            \<not> (\<exists>r\<in>set tbl. row_asin r = asin \<and> now - days * 86400 \<le> row_timestamp r)) \<and>
         (\<forall>h. get_price_history_from_db now tbl asin days = Some h \<longrightarrow>
            hist_asin h = asin \<and>
            price_history h =
              map (\<lambda>x. \<lparr>entry_price = row_price x, entry_timestamp = row_timestamp x\<rparr>)
                (select_rows now tbl asin days) \<and>
            lowest_price h = Min (set (map row_price (select_rows now tbl asin days))) \<and>
            highest_price h = Max (set (map row_price (select_rows now tbl asin days))) \<and>
            hist_title h = row_title (hd (select_rows now tbl asin days))) \<and>
         ((\<forall>r\<in>set tbl. row_asin r \<noteq> asin) \<and>
          (\<forall>x\<in>set xs. obs_asin (snd x) = asin \<and> now - days * 86400 \<le> fst x) \<longrightarrow>
            length (select_rows now (save_many tbl xs) asin days) = length xs \<and>
            mset (map row_price (select_rows now (save_many tbl xs) asin days)) =
              mset (map (obs_price \<circ> snd) xs))"
proof (intro conjI allI impI)
  let ?P = "\<lambda>r. row_asin r = asin \<and> now - days * 86400 \<le> row_timestamp r"
  note sr = select_rows_valid [OF assms]
  show "mset (select_rows now tbl asin days) = filter_mset ?P (mset tbl)"
    by (simp add: sr)
  show "sorted_wrt (\<lambda>a b. row_timestamp b \<le> row_timestamp a) (select_rows now tbl asin days)"
    unfolding sr by (rule newest_first)
  have "get_price_history_from_db now tbl asin days = None \<longleftrightarrow>
      select_rows now tbl asin days = []"
    by (simp add: hist_from_rows split: list.splits)
  also have "\<dots> \<longleftrightarrow> filter ?P tbl = []" by (simp add: sr sort_key_Nil_iff)
  also have "\<dots> \<longleftrightarrow> \<not> (\<exists>r\<in>set tbl. ?P r)" by (simp add: filter_empty_conv)
  finally show "get_price_history_from_db now tbl asin days = None \<longleftrightarrow>
            \<not> (\<exists>r\<in>set tbl. row_asin r = asin \<and> now - days * 86400 \<le> row_timestamp r)" .
next
  fix h assume h: "get_price_history_from_db now tbl asin days = Some h"
  then obtain r rs where rs: "select_rows now tbl asin days = r # rs"
    by (cases "select_rows now tbl asin days") (auto simp: hist_from_rows)
  from h rs show "hist_asin h = asin" by (auto simp: hist_from_rows)
  from h rs show "price_history h =
              map (\<lambda>x. \<lparr>entry_price = row_price x, entry_timestamp = row_timestamp x\<rparr>)
                (select_rows now tbl asin days)" by (auto simp: hist_from_rows)
  from h rs show "lowest_price h = Min (set (map row_price (select_rows now tbl asin days)))"
    by (auto simp: hist_from_rows)
  from h rs show "highest_price h = Max (set (map row_price (select_rows now tbl asin days)))"
    by (auto simp: hist_from_rows)
  from h rs show "hist_title h = row_title (hd (select_rows now tbl asin days))"
    by (auto simp: hist_from_rows)
next
  let ?P = "\<lambda>r. row_asin r = asin \<and> now - days * 86400 \<le> row_timestamp r"
  assume a: "(\<forall>r\<in>set tbl. row_asin r \<noteq> asin) \<and>
          (\<forall>x\<in>set xs. obs_asin (snd x) = asin \<and> now - days * 86400 \<le> fst x)"
  from save_many_append [of tbl xs] obtain new where
    new: "save_many tbl xs = tbl @ new" "list_all2 matches new xs" by blast
  from a have "\<forall>x\<in>set xs. obs_asin (snd x) = asin \<and> now - days * 86400 \<le> fst x" ..
  with new(2) have m: "\<forall>r\<in>set new. ?P r" "map row_price new = map (obs_price \<circ> snd) xs"
    "length new = length xs"
    using matches_all [of new xs asin "now - days * 86400"] by blast+
  from a have "filter ?P tbl = []" by (auto simp: filter_empty_conv)
  moreover from m(1) have "filter ?P new = new" by (simp add: filter_id_conv)
  ultimately have sel: "select_rows now (save_many tbl xs) asin days =
      sort_key (\<lambda>r. - row_timestamp r) new"
    by (simp add: select_rows_valid [OF assms] new(1))
  from sel m(3) show "length (select_rows now (save_many tbl xs) asin days) = length xs"
    by simp
  have "mset (map row_price (sort_key (\<lambda>r. - row_timestamp r) new)) = mset (map row_price new)"
    by (metis mset_map mset_sort)
  with sel m(2) show "mset (map row_price (select_rows now (save_many tbl xs) asin days)) =
              mset (map (obs_price \<circ> snd) xs)"
    by simp
qed

text \<open>Instances: a 30-day window over the one-row table, and two appends for a new identifier.\<close>

theorem store_query_witness:
  "get_price_history_from_db noon_2026_11_03 one_row_table ''B01'' 30 \<noteq> None \<and>
   mset (select_rows noon_2026_11_03 one_row_table ''B01'' 30) = mset one_row_table \<and>
   length (select_rows (noon_2026_11_03 + 9)
             (save_many one_row_table
                [(noon_2026_11_03 + 3, mock_data ''B02''), (noon_2026_11_03 + 7, mock_data ''B02'')])
             ''B02'' 1) = 2"
proof -
  have d: "(0::int) \<le> 30" "30 * 86400 \<le> noon_2026_11_03" by (simp_all add: noon_2026_11_03_def)
  have d2: "(0::int) \<le> 1" "1 * 86400 \<le> noon_2026_11_03 + 9" by (simp_all add: noon_2026_11_03_def)
  note T = store_query [OF d, where tbl = one_row_table and asin = "''B01''"]
  note U = store_query [OF d2, where tbl = one_row_table and asin = "''B02''"
      and xs = "[(noon_2026_11_03 + 3, mock_data ''B02''), (noon_2026_11_03 + 7, mock_data ''B02'')]"]
  have h1: "\<exists>r\<in>set one_row_table. row_asin r = ''B01'' \<and>
      noon_2026_11_03 - 30 * 86400 \<le> row_timestamp r"
    by (simp add: one_row_table_def)
  have h2: "filter_mset (\<lambda>r. row_asin r = ''B01'' \<and> noon_2026_11_03 - 30 * 86400 \<le> row_timestamp r)
      (mset one_row_table) = mset one_row_table"
    by (simp add: one_row_table_def)
  have h3: "(\<forall>r\<in>set one_row_table. row_asin r \<noteq> ''B02'') \<and>
      (\<forall>x\<in>set [(noon_2026_11_03 + 3, mock_data ''B02''), (noon_2026_11_03 + 7, mock_data ''B02'')].
          obs_asin (snd x) = ''B02'' \<and> noon_2026_11_03 + 9 - 1 * 86400 \<le> fst x)"
    by (simp add: one_row_table_def mock_data_def)
  from T h1 have c1: "get_price_history_from_db noon_2026_11_03 one_row_table ''B01'' 30 \<noteq> None"
    by blast
  from T h2 have c2: "mset (select_rows noon_2026_11_03 one_row_table ''B01'' 30) = mset one_row_table"
    by simp
  from U h3 have c3: "length (select_rows (noon_2026_11_03 + 9)
             (save_many one_row_table
                [(noon_2026_11_03 + 3, mock_data ''B02''), (noon_2026_11_03 + 7, mock_data ''B02'')])
             ''B02'' 1) = 2"
    by simp
  from c1 c2 c3 show ?thesis by blast
qed

text \<open>
  Claim C3, as stated for every window, fails for a window of 3000000 days: its start lies
  before Julian day 0, the window start is \<open>NULL\<close>, and the query returns the no-data
  sentinel although the stored observation of the identifier lies inside the window.
\<close>

theorem store_query_window_counterexample:
  "get_price_history_from_db noon_2026_11_03 one_row_table ''B01'' 3000000 = None \<and>
   row_asin (hd one_row_table) = ''B01'' \<and>
   noon_2026_11_03 - 3000000 * 86400 \<le> row_timestamp (hd one_row_table) \<and>
   row_timestamp (hd one_row_table) \<le> noon_2026_11_03"
  by (simp add: get_price_history_from_db_def select_rows_def window_start_def
      one_row_table_def noon_2026_11_03_def)

section \<open>The history fallback\<close>

lemma no_rows_selected:
  assumes "\<forall>r\<in>set tbl. row_asin r = asin \<longrightarrow> row_timestamp r < now - days * 86400"
  shows "select_rows now tbl asin days = []"
proof (cases "window_start now days")
  case None
  then show ?thesis by (simp add: select_rows_def)
next
  case (Some start)
  then have "start = now - days * 86400" by (simp add: window_start_def split: if_splits)
  with assms have "filter (\<lambda>r. row_asin r = asin \<and> start \<le> row_timestamp r) tbl = []"
    by (auto simp: filter_empty_conv)
  with Some show ?thesis by (simp add: select_rows_def)
qed

lemma hist_None_iff:
  "get_price_history_from_db now tbl asin days = None \<longleftrightarrow> select_rows now tbl asin days = []"
  by (simp add: get_price_history_from_db_def split: list.splits)

lemma fallback_taken:
  assumes "select_rows (select_now e) (rows s) asin days = []"
  shows "\<exists>obs. scrape_amazon_price (site e) asin = Inr obs \<and>
      get_price_history e s asin days =
        Inr (\<lparr>hist_asin = asin, hist_title = obs_title obs,
              price_history = [\<lparr>entry_price = obs_price obs, entry_timestamp = wall_clock e\<rparr>],
              lowest_price = obs_price obs, highest_price = obs_price obs\<rparr>,
             s\<lparr>rows := rows s @ [new_row (insert_now e) (rows s) obs],
               calls := calls s @ [Queried asin days, Scraped asin,
                                   Saved (new_row (insert_now e) (rows s) obs)]\<rparr>)"
proof -
  from scrape_returns [of "site e" asin] obtain obs
    where obs: "scrape_amazon_price (site e) asin = Inr obs" by blast
  from assms have "get_price_history_from_db (select_now e) (rows s) asin days = None"
    by (simp add: hist_None_iff)
  with obs have "get_price_history e s asin days =
        Inr (\<lparr>hist_asin = asin, hist_title = obs_title obs,
              price_history = [\<lparr>entry_price = obs_price obs, entry_timestamp = wall_clock e\<rparr>],
              lowest_price = obs_price obs, highest_price = obs_price obs\<rparr>,
             s\<lparr>rows := rows s @ [new_row (insert_now e) (rows s) obs],
               calls := calls s @ [Queried asin days, Scraped asin,
                                   Saved (new_row (insert_now e) (rows s) obs)]\<rparr>)"
    by (simp add: get_price_history_def call_query_def call_scrape_def call_save_def
        save_appends Let_def)
  with obs show ?thesis by blast
qed

lemma stored_returned:
  assumes "select_rows (select_now e) (rows s) asin days \<noteq> []"
  shows "\<exists>h. get_price_history_from_db (select_now e) (rows s) asin days = Some h \<and>
      get_price_history e s asin days = Inr (h, s\<lparr>calls := calls s @ [Queried asin days]\<rparr>)"
proof -
  from assms obtain h where "get_price_history_from_db (select_now e) (rows s) asin days = Some h"
    using hist_None_iff [of "select_now e" "rows s" asin days] by auto
  then show ?thesis
    by (simp add: get_price_history_def call_query_def)
qed

text \<open>
  Claim C4. When the store holds no observation of the identifier, the history handler
  queries the store, calls the extractor once, appends once (in this order, and nothing
  else), and returns a history with the single entry of the extracted price, lowest and
  highest both equal to that price.
\<close>

theorem history_fallback_fresh:
  assumes "\<forall>r\<in>set (rows s). row_asin r \<noteq> asin"
  shows "\<exists>obs. scrape_amazon_price (site e) asin = Inr obs \<and>
      get_price_history e s asin days =
        Inr (\<lparr>hist_asin = asin, hist_title = obs_title obs,
              price_history = [\<lparr>entry_price = obs_price obs, entry_timestamp = wall_clock e\<rparr>],
              lowest_price = obs_price obs, highest_price = obs_price obs\<rparr>,
             s\<lparr>rows := rows s @ [new_row (insert_now e) (rows s) obs],
               calls := calls s @ [Queried asin days, Scraped asin,
                                   Saved (new_row (insert_now e) (rows s) obs)]\<rparr>)"
proof -
  from assms have "select_rows (select_now e) (rows s) asin days = []"
    by (intro no_rows_selected) auto
  then show ?thesis by (rule fallback_taken)
qed

text \<open>
  Claim C10. The history handler takes the fetch-and-append fallback exactly when the
  window query yields no rows: if it yields none, a fresh observation is extracted,
  appended and returned as a single-entry history; if it yields some, the stored aggregate
  is returned and nothing is extracted or appended. The query yields none in particular
  when every stored observation of the identifier is older than the window, whatever the
  table holds.
\<close>

theorem history_fallback_iff:
  "(select_rows (select_now e) (rows s) asin days = [] \<longrightarrow>
      (\<exists>obs. scrape_amazon_price (site e) asin = Inr obs \<and>
         get_price_history e s asin days =
           Inr (\<lparr>hist_asin = asin, hist_title = obs_title obs,
                 price_history = [\<lparr>entry_price = obs_price obs, entry_timestamp = wall_clock e\<rparr>],
                 lowest_price = obs_price obs, highest_price = obs_price obs\<rparr>,
                s\<lparr>rows := rows s @ [new_row (insert_now e) (rows s) obs],
                  calls := calls s @ [Queried asin days, Scraped asin,
                                      Saved (new_row (insert_now e) (rows s) obs)]\<rparr>))) \<and>
   (select_rows (select_now e) (rows s) asin days \<noteq> [] \<longrightarrow>
      (\<exists>h. get_price_history_from_db (select_now e) (rows s) asin days = Some h \<and>
         get_price_history e s asin days =
           Inr (h, s\<lparr>calls := calls s @ [Queried asin days]\<rparr>))) \<and>
   ((\<forall>r\<in>set (rows s). row_asin r = asin \<longrightarrow>
        row_timestamp r < select_now e - days * 86400) \<longrightarrow>
      select_rows (select_now e) (rows s) asin days = [])"
  using fallback_taken [of e s asin days] stored_returned [of e s asin days]
    no_rows_selected [of "rows s" asin "select_now e" days]
  by blast


text \<open>An instance: an identifier not in the table, and a site that cannot be reached.\<close>

theorem history_fallback_fresh_witness:
  "get_price_history
     \<lparr>site = (\<lambda>url. Inl RequestException), select_now = noon_2026_11_03,
      insert_now = noon_2026_11_03 + 3, wall_clock = 7\<rparr>
     \<lparr>rows = one_row_table, calls = []\<rparr> ''B02'' 30 =
   Inr (\<lparr>hist_asin = ''B02'',
         hist_title = ''Mock Product B02 (Scraping blocked - need proxy)'',
         price_history = [\<lparr>entry_price = Fin (9999 / 100), entry_timestamp = 7\<rparr>],
         lowest_price = Fin (9999 / 100), highest_price = Fin (9999 / 100)\<rparr>,
        \<lparr>rows = one_row_table @
           [new_row (noon_2026_11_03 + 3) one_row_table (mock_data ''B02'')],
         calls = [Queried ''B02'' 30, Scraped ''B02'',
                  Saved (new_row (noon_2026_11_03 + 3) one_row_table (mock_data ''B02''))]\<rparr>)"
proof -
  let ?e = "\<lparr>site = (\<lambda>url. Inl RequestException), select_now = noon_2026_11_03,
      insert_now = noon_2026_11_03 + 3, wall_clock = 7\<rparr>"
  let ?s = "\<lparr>rows = one_row_table, calls = []\<rparr>"
  have h: "\<forall>r\<in>set (rows ?s). row_asin r \<noteq> ''B02''" by (simp add: one_row_table_def)
  from history_fallback_fresh [OF h, where e = ?e and days = 30] obtain obs
    where o: "scrape_amazon_price (site ?e) ''B02'' = Inr obs"
      and g: "get_price_history ?e ?s ''B02'' 30 =
        Inr (\<lparr>hist_asin = ''B02'', hist_title = obs_title obs,
              price_history = [\<lparr>entry_price = obs_price obs, entry_timestamp = wall_clock ?e\<rparr>],
              lowest_price = obs_price obs, highest_price = obs_price obs\<rparr>,
             ?s\<lparr>rows := rows ?s @ [new_row (insert_now ?e) (rows ?s) obs],
               calls := calls ?s @ [Queried ''B02'' 30, Scraped ''B02'',
                                   Saved (new_row (insert_now ?e) (rows ?s) obs)]\<rparr>)"
    by blast
  have "scrape_amazon_price (site ?e) ''B02'' = Inr (mock_data ''B02'')"
    by (simp add: scrape_amazon_price_def urls_to_try_def try_url_def)
  with o have "obs = mock_data ''B02''" by simp
  with g show ?thesis by (simp add: mock_data_def)
qed

text \<open>
  An instance: the one stored observation is two days old; a one-day window takes the
  fallback and adds a row, a 30-day window returns the stored history and adds none.
\<close>

theorem history_fallback_iff_witness:
  "length (rows (snd (projr (get_price_history
     \<lparr>site = (\<lambda>url. Inl RequestException), select_now = noon_2026_11_03 + 2 * 86400,
      insert_now = noon_2026_11_03 + 2 * 86400 + 3, wall_clock = 7\<rparr>
     \<lparr>rows = one_row_table, calls = []\<rparr> ''B01'' 1)))) = 2 \<and>
   rows (snd (projr (get_price_history
     \<lparr>site = (\<lambda>url. Inl RequestException), select_now = noon_2026_11_03 + 2 * 86400,
      insert_now = noon_2026_11_03 + 2 * 86400 + 3, wall_clock = 7\<rparr>
     \<lparr>rows = one_row_table, calls = []\<rparr> ''B01'' 30))) = one_row_table"
proof -
  let ?e = "\<lparr>site = (\<lambda>url. Inl RequestException), select_now = noon_2026_11_03 + 2 * 86400,
      insert_now = noon_2026_11_03 + 2 * 86400 + 3, wall_clock = 7\<rparr>"
  let ?s = "\<lparr>rows = one_row_table, calls = []\<rparr>"
  note T = history_fallback_iff [where e = ?e and s = ?s and asin = "''B01''" and days = 1]
  note U = history_fallback_iff [where e = ?e and s = ?s and asin = "''B01''" and days = 30]
  have h1: "\<forall>r\<in>set (rows ?s). row_asin r = ''B01'' \<longrightarrow>
      row_timestamp r < select_now ?e - 1 * 86400"
    by (simp add: one_row_table_def)
  have h2: "select_rows (select_now ?e) (rows ?s) ''B01'' 30 \<noteq> []"
    by (simp add: select_rows_def window_start_def one_row_table_def noon_2026_11_03_def)
  from T h1 have "select_rows (select_now ?e) (rows ?s) ''B01'' 1 = []" by blast
  with T obtain obs where "get_price_history ?e ?s ''B01'' 1 =
           Inr (\<lparr>hist_asin = ''B01'', hist_title = obs_title obs,
                 price_history = [\<lparr>entry_price = obs_price obs, entry_timestamp = wall_clock ?e\<rparr>],
                 lowest_price = obs_price obs, highest_price = obs_price obs\<rparr>,
                ?s\<lparr>rows := rows ?s @ [new_row (insert_now ?e) (rows ?s) obs],
                  calls := calls ?s @ [Queried ''B01'' 1, Scraped ''B01'',
                                      Saved (new_row (insert_now ?e) (rows ?s) obs)]\<rparr>)"
    by blast
  then have c1: "length (rows (snd (projr (get_price_history ?e ?s ''B01'' 1)))) = 2"
    by (simp add: one_row_table_def)
  from U h2 obtain h where "get_price_history ?e ?s ''B01'' 30 =
      Inr (h, ?s\<lparr>calls := calls ?s @ [Queried ''B01'' 30]\<rparr>)"
    by blast
  then have c2: "rows (snd (projr (get_price_history ?e ?s ''B01'' 30))) = one_row_table"
    by simp
  from c1 c2 show ?thesis by blast
qed

section \<open>The current price\<close>

lemma digit_val_le: "is_digit c \<Longrightarrow> digit_val c \<le> 9"
  by (auto simp: is_digit_def digit_val_def)

lemma digits_val_bound: "list_all is_digit s \<Longrightarrow> digits_val s < 10 ^ length s"
proof (induction s rule: rev_induct)
  case Nil
  show ?case by (simp add: digits_val_def)
next
  case (snoc c s)
  then have "digits_val s < 10 ^ length s" "digit_val c \<le> 9"
    by (simp_all add: digit_val_le)
  then show ?case by (simp add: digits_val_snoc)
qed

lemma decimal_bound:
  assumes "list_all is_digit ip" "list_all is_digit fp"
  shows "rat_of_nat (digits_val ip) + rat_of_nat (digits_val fp) / 10 ^ length fp < 10 ^ length ip"
proof -
  from digits_val_bound [OF assms(1)] have "digits_val ip + 1 \<le> 10 ^ length ip" by simp
  then have "rat_of_nat (digits_val ip + 1) \<le> rat_of_nat (10 ^ length ip)"
    by (rule of_nat_mono)
  then have a: "rat_of_nat (digits_val ip) + 1 \<le> 10 ^ length ip" by simp
  from digits_val_bound [OF assms(2)] have "rat_of_nat (digits_val fp) < rat_of_nat (10 ^ length fp)"
    by (simp only: of_nat_less_iff)
  then have "rat_of_nat (digits_val fp) < 10 ^ length fp" by simp
  then have "rat_of_nat (digits_val fp) / 10 ^ length fp < 1" by simp
  with a show ?thesis by linarith
qed

lemma pow_lt_overflow: "n \<le> 308 \<Longrightarrow> (10::rat) ^ n < float_overflow"
proof -
  assume "n \<le> 308"
  then have "(10::rat) ^ n \<le> 10 ^ 308" by (intro power_increasing) simp_all
  also have "(10::rat) ^ 308 < float_overflow" by (simp add: float_overflow_def)
  finally show ?thesis .
qed

lemma to_float_finite: "v < 10 ^ n \<Longrightarrow> n \<le> 308 \<Longrightarrow> to_float v = Fin v"
  using pow_lt_overflow [of n] by (simp add: to_float_def)

lemma py_float_finite: "length s \<le> 308 \<Longrightarrow> py_float s \<noteq> Inr PInf"
proof -
  assume len: "length s \<le> 308"
  define ip where "ip = takeWhile is_digit s"
  define r where "r = dropWhile is_digit s"
  have ip: "list_all is_digit ip" by (auto simp: ip_def list_all_iff dest: set_takeWhileD)
  have "length ip \<le> length s" unfolding ip_def by (rule length_takeWhile_le)
  with len have l: "length ip \<le> 308" by simp
  have a: "to_float (rat_of_nat (digits_val ip)) \<noteq> PInf"
    using decimal_bound [OF ip, of "[]"] to_float_finite [OF _ l, of "rat_of_nat (digits_val ip)"]
    by (simp add: digits_val_def)
  have b: "to_float (rat_of_nat (digits_val ip) + rat_of_nat (digits_val fp) / 10 ^ length fp) \<noteq> PInf"
    if "list_all is_digit fp" for fp
    using decimal_bound [OF ip that] to_float_finite [OF _ l] by simp
  show ?thesis
    unfolding py_float_def Let_def ip_def [symmetric] r_def [symmetric]
    using a b by (cases r) auto
qed

lemma group1_at_length: "group1_at s = Some g \<Longrightarrow> length g \<le> length s"
proof -
  assume a: "group1_at s = Some g"
  define a where "a = takeWhile is_digit_or_comma s"
  define r where "r = dropWhile is_digit_or_comma s"
  have s: "s = a @ r" by (simp add: a_def r_def)
  have tw: "length (takeWhile is_digit xs) \<le> length xs" for xs by (rule length_takeWhile_le)
  from a have "g = a \<or> (\<exists>c r'. r = c # r' \<and> g = a @ [c] @ takeWhile is_digit r') \<or>
      g = a @ takeWhile is_digit r"
    unfolding group1_at_def Let_def a_def [symmetric] r_def [symmetric]
    by (cases r) (auto split: if_splits)
  then show ?thesis
  proof (elim disjE exE conjE)
    assume "g = a" with s show ?thesis by simp
  next
    fix c r' assume "r = c # r'" "g = a @ [c] @ takeWhile is_digit r'"
    with s tw [of r'] show ?thesis by simp
  next
    assume "g = a @ takeWhile is_digit r"
    with s tw [of r] show ?thesis by simp
  qed
qed

lemma match_at_length: "match_at s = Some g \<Longrightarrow> length g \<le> length s"
  by (auto simp: match_at_def split: list.splits if_splits option.splits
      dest!: group1_at_length)

lemma re_search_length: "re_search s = Some g \<Longrightarrow> length g \<le> length s"
proof (induction s)
  case Nil
  then show ?case by (auto dest: match_at_length)
next
  case (Cons c cs)
  show ?case
  proof (cases "match_at (c # cs)")
    case None
    with Cons show ?thesis by auto
  next
    case (Some h)
    with Cons.prems have "match_at (c # cs) = Some g" by simp
    then show ?thesis by (rule match_at_length)
  qed
qed

lemma strip_length: "length (strip s) \<le> length s"
proof -
  have "length (dropWhile is_space (rev (dropWhile is_space s))) \<le>
      length (rev (dropWhile is_space s))" by (rule length_dropWhile_le)
  then have "length (strip s) \<le> length (dropWhile is_space s)"
    unfolding strip_def by simp
  also have "\<dots> \<le> length s" by (rule length_dropWhile_le)
  finally show ?thesis .
qed

lemma price_of_text_finite: "length t \<le> 308 \<Longrightarrow> price_of_text t \<noteq> Inr (Some PInf)"
proof -
  assume len: "length t \<le> 308"
  show ?thesis
  proof (cases "re_search (strip t)")
    case None
    then show ?thesis by (simp add: price_of_text_def)
  next
    case (Some g)
    have "length (remove_commas g) \<le> length g" by (simp add: remove_commas_def)
    also from Some have "\<dots> \<le> length (strip t)" by (rule re_search_length)
    also have "\<dots> \<le> length t" by (rule strip_length)
    finally have "length (remove_commas g) \<le> 308" using len by simp
    then have "py_float (remove_commas g) \<noteq> Inr PInf" by (rule py_float_finite)
    with Some show ?thesis by (auto simp: price_of_text_def split: sum.splits)
  qed
qed

lemma scan_elements_finite:
  "\<forall>t\<in>set ts. length t \<le> 308 \<Longrightarrow> scan_elements ts \<noteq> Inr (Some PInf)"
proof (induction ts)
  case Nil
  show ?case by simp
next
  case (Cons t ts)
  then have "price_of_text t \<noteq> Inr (Some PInf)" by (intro price_of_text_finite) simp
  with Cons show ?case by (auto split: sum.splits option.splits)
qed

lemma scan_selectors_finite:
  "\<forall>sel\<in>set sels. \<forall>t\<in>set (doc sel). length t \<le> 308 \<Longrightarrow>
   scan_selectors doc sels \<noteq> Inr (Some PInf)"
proof (induction sels)
  case Nil
  show ?case by simp
next
  case (Cons sel sels)
  then have "scan_elements (doc sel) \<noteq> Inr (Some PInf)" by (intro scan_elements_finite) simp
  with Cons show ?case by (auto split: sum.splits option.splits)
qed

lemma try_url_finite:
  assumes "\<forall>resp. get url = Inr resp \<longrightarrow>
      (\<forall>sel\<in>set price_selectors. \<forall>t\<in>set (content resp sel). length t \<le> 308)"
    and "try_url get asin url = Inr (Some obs)"
  shows "obs_price obs \<noteq> PInf"
proof (cases "get url")
  case (Inl e)
  with assms(2) show ?thesis by (simp add: try_url_def)
next
  case (Inr resp)
  with assms(1) have "scan_selectors (content resp) price_selectors \<noteq> Inr (Some PInf)"
    by (intro scan_selectors_finite) simp
  with Inr assms(2) show ?thesis
    by (auto simp: try_url_def Let_def split: if_splits sum.splits option.splits)
qed

lemma scrape_urls_finite:
  "\<forall>url\<in>set urls. \<forall>resp. get url = Inr resp \<longrightarrow>
      (\<forall>sel\<in>set price_selectors. \<forall>t\<in>set (content resp sel). length t \<le> 308) \<Longrightarrow>
   scrape_urls get asin urls = Inr obs \<Longrightarrow> obs_price obs \<noteq> PInf"
proof (induction urls)
  case Nil
  then show ?case by (auto simp: mock_data_def)
next
  case (Cons url urls)
  show ?case
  proof (cases "try_url get asin url")
    case (Inl e)
    with Cons show ?thesis by simp
  next
    case (Inr o1)
    show ?thesis
    proof (cases o1)
      case None
      with Inr Cons show ?thesis by simp
    next
      case (Some obs')
      with Inr Cons.prems(2) have "obs' = obs" by simp
      with Some Inr have "try_url get asin url = Inr (Some obs)" by simp
      with Cons.prems(1) show ?thesis by (intro try_url_finite [of get url asin obs]) simp_all
    qed
  qed
qed

lemma nonneg_cases: "Fin 0 \<le> p \<Longrightarrow> p = PInf \<or> (\<exists>v. p = Fin v \<and> 0 \<le> v)"
  by (cases p) (simp_all add: less_eq_pyfloat_def)

text \<open>
  Claim C1, amended. For every identifier, every answer of the remote site and every state
  of the store, the current-price handler returns (status 200; no fetch, parse or
  extraction failure leaves the extractor), and the price in its response is the
  extractor's price: a finite number that is not negative, or \<open>inf\<close>. It is a finite
  number that is not negative whenever no text that a price selector finds on the pages
  is longer than 308 characters. The store is a list here, so storage-layer failures are
  outside the statement.
\<close>

theorem get_current_price_ok:
  "\<exists>r s' obs. get_current_price e s asin = Inr (r, s') \<and>
     scrape_amazon_price (site e) asin = Inr obs \<and> current_price r = obs_price obs \<and>
     resp_asin r = asin \<and>
     (current_price r = PInf \<or> (\<exists>v. current_price r = Fin v \<and> 0 \<le> v)) \<and>
     (short_texts (site e) asin \<longrightarrow> (\<exists>v. current_price r = Fin v \<and> 0 \<le> v))"
proof -
  from scrape_returns [of "site e" asin] obtain obs
    where o: "scrape_amazon_price (site e) asin = Inr obs" "Fin 0 \<le> obs_price obs"
      "obs_asin obs = asin" by blast
  from o(2) have c: "obs_price obs = PInf \<or> (\<exists>v. obs_price obs = Fin v \<and> 0 \<le> v)"
    by (rule nonneg_cases)
  have f: "obs_price obs \<noteq> PInf" if "short_texts (site e) asin"
    using that o(1) unfolding short_texts_def scrape_amazon_price_def
    by (rule scrape_urls_finite)
  from o c f show ?thesis
    by (auto simp: get_current_price_def call_scrape_def Let_def)
qed

lemma digits_val_zeros: "digits_val (xs @ replicate n CHR ''0'') = digits_val xs * 10 ^ n"
proof (induction n)
  case 0
  show ?case by simp
next
  case (Suc n)
  have "xs @ replicate (Suc n) CHR ''0'' = (xs @ replicate n CHR ''0'') @ [CHR ''0'']"
    by (simp add: replicate_append_same)
  then have "digits_val (xs @ replicate (Suc n) CHR ''0'') =
      10 * digits_val (xs @ replicate n CHR ''0'') + digit_val CHR ''0''"
    by (simp only: digits_val_snoc)
  with Suc show ?case by (simp add: digit_val_def)
qed

lemma huge_price_text:
  "price_of_text (CHR ''1'' # replicate 309 CHR ''0'') = Inr (Some PInf)"
proof -
  let ?ds = "CHR ''1'' # replicate 309 CHR ''0''"
  have d: "list_all is_digit ?ds" by (simp add: list_all_iff is_digit_def)
  then have dc: "list_all is_digit_or_comma ?ds" by (simp add: list_all_iff digit_doc)
  have ex: "\<exists>c\<in>set ?ds. is_digit c" by (simp add: is_digit_def)
  have "digits_val ([CHR ''1''] @ replicate 309 CHR ''0'') = digits_val [CHR ''1''] * 10 ^ 309"
    by (rule digits_val_zeros)
  then have v: "digits_val ?ds = 10 ^ 309" by (simp add: digits_val_def digit_val_def)
  have "\<not> (10::rat) ^ 309 < float_overflow" by (simp add: float_overflow_def)
  then have "to_float (rat_of_nat (10 ^ 309)) = PInf" by (simp add: to_float_def)
  with separators_ignored(1) [OF dc ex, of "[]"] remove_commas_digits [OF d] v
  show ?thesis by simp
qed

text \<open>
  Claim C1, as stated, fails on a page whose price text is a one followed by 309 zeros:
  \<open>float\<close> reads it as \<open>inf\<close> without an error, and the price in the response is \<open>inf\<close>,
  which is not a number a response can carry.
\<close>

theorem get_current_price_overflow_counterexample:
  "current_price (fst (projr (get_current_price
     \<lparr>site = huge_price_site, select_now = noon_2026_11_03, insert_now = noon_2026_11_03,
      wall_clock = 7\<rparr> \<lparr>rows = [], calls = []\<rparr> ''B01''))) = PInf"
proof -
  have "scan_elements (huge_price_page ''span#priceblock_ourprice'') = Inr (Some PInf)"
    by (simp add: huge_price_page_def huge_price_text)
  moreover have "scan_elements (huge_price_page sel) = Inr None"
    if "sel \<noteq> ''span#priceblock_ourprice''" for sel
    using that by (simp add: huge_price_page_def)
  ultimately have "scan_selectors huge_price_page price_selectors = Inr (Some PInf)"
    by (simp add: price_selectors_def)
  then have "try_url huge_price_site ''B01'' ''https://www.amazon.com/dp/B01'' =
      Inr (Some \<lparr>obs_asin = ''B01'',
        obs_title = title_or_label (scan_titles huge_price_page title_selectors) ''B01'',
        obs_price = PInf, obs_currency = ''USD'', obs_url = ''https://www.amazon.com/dp/B01''\<rparr>)"
    by (simp add: try_url_def huge_price_site_def raise_for_status_def)
  then show ?thesis
    by (simp add: get_current_price_def call_scrape_def Let_def scrape_amazon_price_def
        urls_to_try_def)
qed

text \<open>An instance: the page with two prices, whose texts are short.\<close>

theorem get_current_price_ok_witness:
  "(\<exists>v. current_price (fst (projr (get_current_price
       \<lparr>site = (\<lambda>url. Inr (Response 200 two_price_page)), select_now = noon_2026_11_03,
        insert_now = noon_2026_11_03, wall_clock = 7\<rparr> \<lparr>rows = [], calls = []\<rparr> ''B01''))) = Fin v
      \<and> 0 \<le> v) \<and>
   scrape_amazon_price (\<lambda>url. Inr (Response 200 two_price_page)) ''B01'' =
     Inr \<lparr>obs_asin = ''B01'', obs_title = ''Product B01'', obs_price = Fin 10,
          obs_currency = ''USD'', obs_url = ''https://www.amazon.com/dp/B01''\<rparr>"
proof -
  let ?e = "\<lparr>site = (\<lambda>url. Inr (Response 200 two_price_page)), select_now = noon_2026_11_03,
        insert_now = noon_2026_11_03, wall_clock = 7\<rparr>"
  let ?s = "\<lparr>rows = [], calls = []\<rparr>"
  have h: "short_texts (site ?e) ''B01''"
    by (auto simp: short_texts_def two_price_page_def)
  from get_current_price_ok [of ?e ?s "''B01''"] h obtain r s' v
    where "get_current_price ?e ?s ''B01'' = Inr (r, s')" "current_price r = Fin v" "0 \<le> v"
    by blast
  then have c1: "\<exists>v. current_price (fst (projr (get_current_price ?e ?s ''B01''))) = Fin v \<and> 0 \<le> v"
    by simp
  have c2: "scrape_amazon_price (\<lambda>url. Inr (Response 200 two_price_page)) ''B01'' =
     Inr \<lparr>obs_asin = ''B01'', obs_title = ''Product B01'', obs_price = Fin 10,
          obs_currency = ''USD'', obs_url = ''https://www.amazon.com/dp/B01''\<rparr>"
    by code_simp
  from c1 c2 show ?thesis by blast
qed

end
